theory Spec2Isabelle
  imports Main "HOL-Library.AList"
begin

section \<open>Strings\<close>

text \<open>
  JavaScript strings are modelled as \<open>string\<close>, every character a code unit in
  0..255 read as a Latin-1 code point. \<open>toLowerCase\<close> and \<open>trim\<close> are
  \<open>String.prototype.toLowerCase\<close> and \<open>String.prototype.trim\<close> on that range.
\<close>

definition lowerChar :: "char \<Rightarrow> char" where
  "lowerChar c =
     (let n = (of_char c :: nat)
      in if (65 \<le> n \<and> n \<le> 90) \<or> (192 \<le> n \<and> n \<le> 222 \<and> n \<noteq> 215)
         then char_of (n + 32) else c)"

definition toLowerCase :: "string \<Rightarrow> string" where
  "toLowerCase s = map lowerChar s"

definition isWhiteSpace :: "char \<Rightarrow> bool" where
  "isWhiteSpace c = ((of_char c :: nat) \<in> {9, 10, 11, 12, 13, 32, 160})"

definition trim :: "string \<Rightarrow> string" where
  "trim s = rev (dropWhile isWhiteSpace (rev (dropWhile isWhiteSpace s)))"

section \<open>matchmaking.js\<close>

datatype ChatMode = Text | Video

text \<open>
  \<open>ClientInfo\<close> of types.ts. The WebSocket object is modelled by the number of its
  connection: the code only compares it by identity and sends on it.
\<close>

record ClientInfo =
  sessionId :: string
  mode :: ChatMode
  interests :: "string list"
  ws :: nat
  pairedWith :: "string option"
  ip :: string

text \<open>
  The four fields of \<open>createQueues\<close>. A pool map is only read with \<open>get\<close>, and a
  pool's \<open>Set\<close> is only tested for membership and size, so neither order is observable.
\<close>

record MatchmakingQueues =
  waiting_text :: "string list"
  waiting_video :: "string list"
  interestPoolsText :: "string \<rightharpoonup> string set"
  interestPoolsVideo :: "string \<rightharpoonup> string set"

definition createQueues :: "MatchmakingQueues" where
  "createQueues =
     \<lparr>waiting_text = [], waiting_video = [],
      interestPoolsText = Map.empty, interestPoolsVideo = Map.empty\<rparr>"

text \<open>
  \<open>const waiting = isVideo ? queues.waiting_video : queues.waiting_text\<close> and the same
  for \<open>pools\<close>: the two aliases every function takes, with the write through them.
\<close>

definition waitingOf :: "ChatMode \<Rightarrow> MatchmakingQueues \<Rightarrow> string list" where
  "waitingOf m q = (if m = Video then waiting_video q else waiting_text q)"

definition poolsOf :: "ChatMode \<Rightarrow> MatchmakingQueues \<Rightarrow> (string \<rightharpoonup> string set)" where
  "poolsOf m q = (if m = Video then interestPoolsVideo q else interestPoolsText q)"

definition putWaiting :: "ChatMode \<Rightarrow> string list \<Rightarrow> MatchmakingQueues \<Rightarrow> MatchmakingQueues" where
  "putWaiting m w q = (if m = Video then q\<lparr>waiting_video := w\<rparr> else q\<lparr>waiting_text := w\<rparr>)"

definition putPools ::
  "ChatMode \<Rightarrow> (string \<rightharpoonup> string set) \<Rightarrow> MatchmakingQueues \<Rightarrow> MatchmakingQueues" where
  "putPools m p q =
     (if m = Video then q\<lparr>interestPoolsVideo := p\<rparr> else q\<lparr>interestPoolsText := p\<rparr>)"

text \<open>The first loop of \<open>enqueueClient\<close>: the key is trimmed and lower-cased, an empty key skipped.\<close>

fun addToPools :: "string \<Rightarrow> string list \<Rightarrow> (string \<rightharpoonup> string set) \<Rightarrow> (string \<rightharpoonup> string set)" where
  "addToPools sid [] pools = pools"
| "addToPools sid (interest # rest) pools =
     (let key = toLowerCase (trim interest)
      in if key = [] then addToPools sid rest pools
         else addToPools sid rest
                (pools(key \<mapsto> insert sid (case pools key of None \<Rightarrow> {} | Some s \<Rightarrow> s))))"

definition enqueueClient :: "MatchmakingQueues \<Rightarrow> ClientInfo \<Rightarrow> MatchmakingQueues" where
  "enqueueClient q client =
     (let m = mode client;
          q1 = putPools m (addToPools (sessionId client) (interests client) (poolsOf m q)) q
      in putWaiting m (waitingOf m q1 @ [sessionId client]) q1)"

text \<open>
  The loop of \<open>removeFromQueues\<close>: the key is lower-cased only (not trimmed), and a pool
  that becomes empty is deleted.
\<close>

fun removeFromPools :: "string \<Rightarrow> string list \<Rightarrow> (string \<rightharpoonup> string set) \<Rightarrow> (string \<rightharpoonup> string set)" where
  "removeFromPools sid [] pools = pools"
| "removeFromPools sid (interest # rest) pools =
     (let key = toLowerCase interest
      in case pools key of
           None \<Rightarrow> removeFromPools sid rest pools
         | Some s \<Rightarrow>
             (if s - {sid} = {} then removeFromPools sid rest (pools(key := None))
              else removeFromPools sid rest (pools(key \<mapsto> s - {sid}))))"

text \<open>\<open>indexOf\<close> and \<open>splice(idx, 1)\<close> take out the first occurrence only: \<open>remove1\<close>.\<close>

definition removeFromQueues :: "MatchmakingQueues \<Rightarrow> ClientInfo \<Rightarrow> MatchmakingQueues" where
  "removeFromQueues q client =
     (let m = mode client;
          q1 = putWaiting m (remove1 (sessionId client) (waitingOf m q)) q
      in putPools m (removeFromPools (sessionId client) (interests client) (poolsOf m q1)) q1)"

text \<open>The candidate set of \<open>tryMatch\<close>, one interest of the client after the other.\<close>

fun candidates :: "string \<Rightarrow> (string \<rightharpoonup> string set) \<Rightarrow> string list \<Rightarrow> string set \<Rightarrow> string set" where
  "candidates self pools [] acc = acc"
| "candidates self pools (interest # rest) acc =
     (case pools (toLowerCase interest) of
        None \<Rightarrow> candidates self pools rest acc
      | Some s \<Rightarrow> candidates self pools rest (acc \<union> (s - {self})))"

definition candidateSet :: "MatchmakingQueues \<Rightarrow> ClientInfo \<Rightarrow> string set" where
  "candidateSet q client =
     candidates (sessionId client) (poolsOf (mode client) q) (interests client) {}"

text \<open>
  The loop over \<open>waiting\<close> under \<open>candidateSet.size > 0\<close>: it stops at the first id
  that is not the client's, is a candidate, is registered and has the client's mode.
\<close>

fun scanCandidates ::
  "string set \<Rightarrow> ClientInfo \<Rightarrow> (string \<rightharpoonup> ClientInfo) \<Rightarrow> string list \<Rightarrow> (string \<times> ClientInfo) option" where
  "scanCandidates cs client reg [] = None"
| "scanCandidates cs client reg (sid # rest) =
     (if sid = sessionId client then scanCandidates cs client reg rest
      else if sid \<in> cs then
        (case reg sid of
           None \<Rightarrow> scanCandidates cs client reg rest
         | Some other \<Rightarrow>
             if mode other \<noteq> mode client then scanCandidates cs client reg rest
             else Some (sid, other))
      else scanCandidates cs client reg rest)"

text \<open>The second loop over \<open>waiting\<close>: the plain FIFO fallback.\<close>

fun scanWaiting ::
  "ClientInfo \<Rightarrow> (string \<rightharpoonup> ClientInfo) \<Rightarrow> string list \<Rightarrow> (string \<times> ClientInfo) option" where
  "scanWaiting client reg [] = None"
| "scanWaiting client reg (sid # rest) =
     (if sid = sessionId client then scanWaiting client reg rest
      else case reg sid of
             None \<Rightarrow> scanWaiting client reg rest
           | Some other \<Rightarrow>
               if mode other \<noteq> mode client then scanWaiting client reg rest
               else Some (sid, other))"

text \<open>
  \<open>tryMatch\<close> returns the queues as it leaves them and the pair \<open>{a, b}\<close>, or \<open>None\<close>
  for \<open>null\<close>.
\<close>

definition tryMatch ::
  "MatchmakingQueues \<Rightarrow> ClientInfo \<Rightarrow> (string \<rightharpoonup> ClientInfo)
     \<Rightarrow> MatchmakingQueues \<times> (string \<times> string) option" where
  "tryMatch q client reg =
     (let waiting = waitingOf (mode client) q;
          cs = candidateSet q client;
          found = (if cs \<noteq> {} then scanCandidates cs client reg waiting else None)
      in case found of
           Some (sid, other) \<Rightarrow>
             (removeFromQueues (removeFromQueues q client) other, Some (sessionId client, sid))
         | None \<Rightarrow>
             (case scanWaiting client reg waiting of
                Some (sid, other) \<Rightarrow>
                  (removeFromQueues (removeFromQueues q client) other,
                   Some (sessionId client, sid))
              | None \<Rightarrow> (q, None)))"

section \<open>The signaling server\<close>

text \<open>
  \<open>isValidUuidV4\<close> tests the regular expression
  \<^verbatim>\<open>/^[0-9a-f]{8}-[0-9a-f]{4}-4[0-9a-f]{3}-[89ab][0-9a-f]{3}-[0-9a-f]{12}$/i\<close>:
  the pattern is a list of character classes, matched position by position.
\<close>

datatype CharClass = Hex | Dash | Four | Variant

definition isHex :: "char \<Rightarrow> bool" where
  "isHex c =
     (let n = (of_char c :: nat)
      in (48 \<le> n \<and> n \<le> 57) \<or> (97 \<le> n \<and> n \<le> 102) \<or> (65 \<le> n \<and> n \<le> 70))"

fun matchClass :: "CharClass \<Rightarrow> char \<Rightarrow> bool" where
  "matchClass Hex c = isHex c"
| "matchClass Dash c = (c = CHR ''-'')"
| "matchClass Four c = (c = CHR ''4'')"
| "matchClass Variant c = (c \<in> set ''89abAB'')"

fun matchClasses :: "CharClass list \<Rightarrow> string \<Rightarrow> bool" where
  "matchClasses [] [] = True"
| "matchClasses (p # ps) (c # cs) = (matchClass p c \<and> matchClasses ps cs)"
| "matchClasses _ _ = False"

definition uuidV4Pattern :: "CharClass list" where
  "uuidV4Pattern =
     replicate 8 Hex @ [Dash] @ replicate 4 Hex @ [Dash] @ [Four] @ replicate 3 Hex @ [Dash]
       @ [Variant] @ replicate 3 Hex @ [Dash] @ replicate 12 Hex"

definition isValidUuidV4 :: "string \<Rightarrow> bool" where
  "isValidUuidV4 candidate = matchClasses uuidV4Pattern candidate"

text \<open>
  \<open>sanitizeInterests(interests?: unknown)\<close>: \<open>None\<close> is a value that is not an array,
  \<open>JOther\<close> an entry that is not a string.
\<close>

datatype JsValue = JString string | JOther

fun sanitizeEntry :: "JsValue \<Rightarrow> string" where
  "sanitizeEntry (JString x) = toLowerCase (trim x)"
| "sanitizeEntry JOther = []"

definition sanitizeInterests :: "JsValue list option \<Rightarrow> string list" where
  "sanitizeInterests raw =
     (case raw of
        None \<Rightarrow> []
      | Some xs \<Rightarrow> take 10 (filter (\<lambda>x. x \<noteq> []) (map sanitizeEntry xs)))"

datatype RelayKind = Offer | Answer | Ice | ChatMessage

text \<open>
  The messages of types.ts. A join carries \<open>mode\<close> as the string received, checked by
  the handler. A relay message carries \<open>to\<close> and its body, forwarded as it is.
\<close>

datatype IncomingMessage =
    Join string string "JsValue list option"
  | Leave string
  | Next string
  | Report string string
  | Relay RelayKind "string option" string
  | UnknownType

datatype OutgoingMessage =
    Paired string
  | Waiting
  | ErrorNotification string
  | Debug string
  | Relayed RelayKind "string option" string

text \<open>
  A pending \<open>setTimeout\<close> callback. The one of join closes over \<open>sessionId\<close> and \<open>ws\<close>;
  the one of next closes over the object \<open>c\<close>, of which it reads \<open>sessionId\<close>, \<open>mode\<close>,
  \<open>interests\<close> and \<open>ws\<close>, fields that no handler writes.
\<close>

datatype Timer = JoinAttempt string nat | NextAttempt ClientInfo

text \<open>
  The module state: the registry \<open>Map\<close> in insertion order (the close handler iterates
  it), the queues, the reports (session, reason, ip), the messages sent (connection,
  message) and the pending timers, all of one delay, in the order they were set.
\<close>

record ServerState =
  sessionIdToClient :: "(string \<times> ClientInfo) list"
  queues :: MatchmakingQueues
  reportsQueue :: "(string \<times> string \<times> string) list"
  outbox :: "(nat \<times> OutgoingMessage) list"
  timers :: "Timer list"

definition initialState :: ServerState where
  "initialState =
     \<lparr>sessionIdToClient = [], queues = createQueues, reportsQueue = [], outbox = [], timers = []\<rparr>"

definition getClient :: "ServerState \<Rightarrow> string \<Rightarrow> ClientInfo option" where
  "getClient st sid = map_of (sessionIdToClient st) sid"

definition send :: "nat \<Rightarrow> OutgoingMessage \<Rightarrow> ServerState \<Rightarrow> ServerState" where
  "send w m st = st\<lparr>outbox := outbox st @ [(w, m)]\<rparr>"

text \<open>\<open>x.pairedWith = v\<close> on the object the registry holds under \<open>sid\<close>.\<close>

definition setPairedWith :: "string \<Rightarrow> string option \<Rightarrow> ServerState \<Rightarrow> ServerState" where
  "setPairedWith sid v st =
     st\<lparr>sessionIdToClient :=
          AList.map_entry sid (\<lambda>c. c\<lparr>pairedWith := v\<rparr>) (sessionIdToClient st)\<rparr>"

text \<open>\<open>if (c.pairedWith)\<close>: the peer's id when the field is set and not the empty string.\<close>

definition pairedPeer :: "ClientInfo \<Rightarrow> string option" where
  "pairedPeer c = (case pairedWith c of None \<Rightarrow> None | Some p \<Rightarrow> if p = [] then None else Some p)"

text \<open>
  What the three call sites of \<open>tryMatch\<close> do with its result: pair both sides and
  notify them when both are registered, or send \<open>waiting\<close> on the given connection.
\<close>

definition applyAttempt :: "nat \<Rightarrow> (string \<times> string) option \<Rightarrow> ServerState \<Rightarrow> ServerState" where
  "applyAttempt w attempt st =
     (case attempt of
        None \<Rightarrow> send w Waiting st
      | Some (ida, idb) \<Rightarrow>
          (case getClient st ida of
             None \<Rightarrow> st
           | Some a \<Rightarrow>
               (case getClient st idb of
                  None \<Rightarrow> st
                | Some b \<Rightarrow>
                    send (ws b) (Paired (sessionId a))
                      (send (ws a) (Paired (sessionId b))
                         (setPairedWith idb (Some (sessionId a))
                            (setPairedWith ida (Some (sessionId b)) st))))))"

definition runTryMatch :: "nat \<Rightarrow> ClientInfo \<Rightarrow> ServerState \<Rightarrow> ServerState" where
  "runTryMatch w client st =
     (case tryMatch (queues st) client (getClient st) of
        (q, attempt) \<Rightarrow> applyAttempt w attempt (st\<lparr>queues := q\<rparr>))"

text \<open>\<open>attemptMatch\<close> of the join handler.\<close>

definition attemptMatch :: "string \<Rightarrow> nat \<Rightarrow> ServerState \<Rightarrow> ServerState" where
  "attemptMatch sid w st =
     (case getClient st sid of
        None \<Rightarrow> st
      | Some current \<Rightarrow> runTryMatch w current st)"

definition parseMode :: "string \<Rightarrow> ChatMode option" where
  "parseMode m = (if m = ''text'' then Some Text else if m = ''video'' then Some Video else None)"

definition onJoin :: "nat \<Rightarrow> string \<Rightarrow> string \<Rightarrow> string \<Rightarrow> JsValue list option \<Rightarrow> ServerState \<Rightarrow> ServerState" where
  "onJoin w addr sid m raw st =
     (if \<not> isValidUuidV4 sid then send w (ErrorNotification ''invalid_sessionId'') st
      else case parseMode m of
             None \<Rightarrow> send w (ErrorNotification ''invalid_mode'') st
           | Some md \<Rightarrow>
               (let info = \<lparr>sessionId = sid, mode = md, interests = sanitizeInterests raw,
                            ws = w, pairedWith = None, ip = addr\<rparr>;
                    st1 = st\<lparr>sessionIdToClient := AList.update sid info (sessionIdToClient st),
                             queues := enqueueClient (queues st) info\<rparr>
                in if interests info \<noteq> [] then st1\<lparr>timers := timers st1 @ [JoinAttempt sid w]\<rparr>
                   else attemptMatch sid w st1))"

text \<open>
  The teardown that leave, next, report and close start with, each with its own
  notification; next and close put the peer back at the tail of its queue.
\<close>

definition notifyPeer :: "string \<Rightarrow> bool \<Rightarrow> ClientInfo \<Rightarrow> ServerState \<Rightarrow> ServerState" where
  "notifyPeer note requeue c st =
     (case pairedPeer c of
        None \<Rightarrow> st
      | Some p \<Rightarrow>
          (case getClient st p of
             None \<Rightarrow> st
           | Some peer \<Rightarrow>
               (let st1 = send (ws peer) (Debug note) (setPairedWith p None st)
                in if requeue then st1\<lparr>queues := enqueueClient (queues st1) peer\<rparr> else st1)))"

definition onLeave :: "string \<Rightarrow> ServerState \<Rightarrow> ServerState" where
  "onLeave sid st =
     (case getClient st sid of
        None \<Rightarrow> st
      | Some c \<Rightarrow>
          (let st1 = notifyPeer ''peer_left'' False c st;
               st2 = st1\<lparr>queues := removeFromQueues (queues st1) c\<rparr>
           in st2\<lparr>sessionIdToClient := AList.delete (sessionId c) (sessionIdToClient st2)\<rparr>))"

definition onNext :: "string \<Rightarrow> ServerState \<Rightarrow> ServerState" where
  "onNext sid st =
     (case getClient st sid of
        None \<Rightarrow> st
      | Some c \<Rightarrow>
          (let st1 = (case pairedPeer c of
                        None \<Rightarrow> st
                      | Some p \<Rightarrow> setPairedWith sid None (notifyPeer ''peer_skipped'' True c st));
               st2 = st1\<lparr>queues := enqueueClient (removeFromQueues (queues st1) c) c\<rparr>
           in if interests c \<noteq> [] then st2\<lparr>timers := timers st2 @ [NextAttempt c]\<rparr>
              else runTryMatch (ws c) c st2))"

definition onRelay :: "RelayKind \<Rightarrow> string option \<Rightarrow> string \<Rightarrow> ServerState \<Rightarrow> ServerState" where
  "onRelay k dest body st =
     (case dest of
        None \<Rightarrow> st
      | Some t \<Rightarrow>
          if t = [] then st
          else (case getClient st t of
                  None \<Rightarrow> st
                | Some peer \<Rightarrow> send (ws peer) (Relayed k dest body) st))"

definition onReport :: "string \<Rightarrow> string \<Rightarrow> string \<Rightarrow> ServerState \<Rightarrow> ServerState" where
  "onReport addr sid reason st =
     (let st0 = st\<lparr>reportsQueue := reportsQueue st @ [(sid, reason, addr)]\<rparr>
      in case getClient st0 sid of
           None \<Rightarrow> st0
         | Some c \<Rightarrow>
             (case pairedPeer c of
                None \<Rightarrow> st0
              | Some p \<Rightarrow> setPairedWith sid None (notifyPeer ''peer_reported'' False c st0)))"

text \<open>
  The switch of the message handler, for a message that parsed and passed the rate
  limiter (the two returns before the switch touch no state).
\<close>

fun onMessage :: "nat \<Rightarrow> string \<Rightarrow> IncomingMessage \<Rightarrow> ServerState \<Rightarrow> ServerState" where
  "onMessage w addr (Join sid m raw) st = onJoin w addr sid m raw st"
| "onMessage w addr (Leave sid) st = onLeave sid st"
| "onMessage w addr (Next sid) st = onNext sid st"
| "onMessage w addr (Report sid reason) st = onReport addr sid reason st"
| "onMessage w addr (Relay k dest body) st = onRelay k dest body st"
| "onMessage w addr UnknownType st = send w (ErrorNotification ''unknown_type'') st"

text \<open>The close handler: the first registry entry of the closed connection is torn down.\<close>

definition onClose :: "nat \<Rightarrow> ServerState \<Rightarrow> ServerState" where
  "onClose w st =
     (case find (\<lambda>(sid, c). ws c = w) (sessionIdToClient st) of
        None \<Rightarrow> st
      | Some (sid, c) \<Rightarrow>
          (let st1 = notifyPeer ''peer_disconnected'' True c st;
               st2 = st1\<lparr>queues := removeFromQueues (queues st1) c\<rparr>
           in st2\<lparr>sessionIdToClient := AList.delete sid (sessionIdToClient st2)\<rparr>))"

text \<open>The callback of a timer, run when it fires.\<close>

fun fire :: "Timer \<Rightarrow> ServerState \<Rightarrow> ServerState" where
  "fire (JoinAttempt sid w) st = attemptMatch sid w st"
| "fire (NextAttempt c) st = runTryMatch (ws c) c st"

text \<open>
  The event loop: one event at a time, a message on a connection, the close of a
  connection, or the oldest pending timer firing.
\<close>

datatype Event = Message nat string IncomingMessage | Close nat | TimerFires

fun step :: "Event \<Rightarrow> ServerState \<Rightarrow> ServerState" where
  "step (Message w addr msg) st = onMessage w addr msg st"
| "step (Close w) st = onClose w st"
| "step TimerFires st =
     (case timers st of
        [] \<Rightarrow> st
      | t # rest \<Rightarrow> fire t (st\<lparr>timers := rest\<rparr>))"

definition run :: "Event list \<Rightarrow> ServerState \<Rightarrow> ServerState" where
  "run events st = fold step events st"

text \<open>
  The registry as the join handler builds it: one entry per id, each record filed under
  its own \<open>sessionId\<close>.
\<close>

definition wellKeyed :: "(string \<times> ClientInfo) list \<Rightarrow> bool" where
  "wellKeyed reg = (distinct (map fst reg) \<and> list_all (\<lambda>(k, c). sessionId c = k) reg)"

section \<open>Inputs of the tests\<close>

text \<open>\<open>mk\<close> of tests/matchmaking.test.ts, and the queues its cases build.\<close>

definition mk :: "string \<Rightarrow> ChatMode \<Rightarrow> string list \<Rightarrow> ClientInfo" where
  "mk sid m is =
     \<lparr>sessionId = sid, mode = m, interests = is, ws = 0, pairedWith = None, ip = ''test''\<rparr>"

text \<open>"pairs FIFO when no interests": A then B, both text.\<close>

definition scenario1 :: MatchmakingQueues where
  "scenario1 = enqueueClient (enqueueClient createQueues (mk ''A'' Text [])) (mk ''B'' Text [])"

text \<open>"prefers interest pool matches": A with music, C without interests, B with music.\<close>

definition scenario2 :: MatchmakingQueues where
  "scenario2 =
     enqueueClient
       (enqueueClient (enqueueClient createQueues (mk ''A'' Video [''music''])) (mk ''C'' Video []))
       (mk ''B'' Video [''music''])"

text \<open>The same three sessions, the one without interests first.\<close>

definition scenario2b :: MatchmakingQueues where
  "scenario2b =
     enqueueClient
       (enqueueClient (enqueueClient createQueues (mk ''C'' Video [])) (mk ''A'' Video [''music'']))
       (mk ''B'' Video [''music''])"

text \<open>Three sessions without interests, B first.\<close>

definition selfFirst :: MatchmakingQueues where
  "selfFirst =
     enqueueClient
       (enqueueClient (enqueueClient createQueues (mk ''B'' Text [])) (mk ''A'' Text []))
       (mk ''C'' Text [])"

text \<open>
  An id \<open>tryMatch\<close> may return for a client: not the client's own, present in the
  registry, and of the client's mode.
\<close>

definition eligible :: "ClientInfo \<Rightarrow> (string \<rightharpoonup> ClientInfo) \<Rightarrow> string \<Rightarrow> bool" where
  "eligible client reg x =
     (x \<noteq> sessionId client \<and>
      (case reg x of None \<Rightarrow> False | Some other \<Rightarrow> mode other = mode client))"

section \<open>Inputs of the server\<close>

text \<open>Three session ids of the version-4 format, and the record a join stores.\<close>

definition idA :: string where
  "idA = ''00000000-0000-4000-8000-00000000000a''"

definition idB :: string where
  "idB = ''00000000-0000-4000-8000-00000000000b''"

definition idC :: string where
  "idC = ''00000000-0000-4000-8000-00000000000c''"

definition joined :: "string \<Rightarrow> ChatMode \<Rightarrow> string list \<Rightarrow> nat \<Rightarrow> string option \<Rightarrow> ClientInfo" where
  "joined sid m is w p =
     \<lparr>sessionId = sid, mode = m, interests = is, ws = w, pairedWith = p, ip = ''ip''\<rparr>"

text \<open>A alone, waiting; and A and B, paired by B's join.\<close>

definition waitingA :: ServerState where
  "waitingA = run [Message 1 ''ip'' (Join idA ''text'' None)] initialState"

definition pairedAB :: ServerState where
  "pairedAB =
     run [Message 1 ''ip'' (Join idA ''text'' None), Message 2 ''ip'' (Join idB ''text'' None)]
       initialState"

text \<open>A waiting in text and C waiting in video.\<close>

definition waitingAC :: ServerState where
  "waitingAC =
     run [Message 1 ''ip'' (Join idA ''text'' None), Message 3 ''ip'' (Join idC ''video'' None)]
       initialState"

text \<open>
  A joins twice with the same id, first with the interest music and then with rock, and
  B joins without interests.
\<close>

definition rejoined :: ServerState where
  "rejoined =
     run [Message 1 ''ip'' (Join idA ''text'' (Some [JString ''music''])),
          Message 1 ''ip'' (Join idA ''text'' (Some [JString ''rock''])),
          Message 2 ''ip'' (Join idB ''text'' None)]
       initialState"

text \<open>
  A joins with an interest, asks for the next partner and leaves; B joins with another
  interest; the timer of A's join fires. The timer of A's next is now the oldest.
\<close>

definition staleNext :: ServerState where
  "staleNext =
     run [Message 1 ''ip'' (Join idA ''text'' (Some [JString ''x''])),
          Message 1 ''ip'' (Next idA),
          Message 1 ''ip'' (Leave idA),
          Message 2 ''ip'' (Join idB ''text'' (Some [JString ''y''])),
          TimerFires]
       initialState"

section \<open>Reading and writing the queues\<close>

lemma waitingOf_putWaiting [simp]: "waitingOf m (putWaiting m w q) = w"
  by (simp add: waitingOf_def putWaiting_def)

lemma waitingOf_putPools [simp]: "waitingOf m (putPools m' p q) = waitingOf m q"
  by (simp add: waitingOf_def putPools_def)

lemma poolsOf_putPools [simp]: "poolsOf m (putPools m p q) = p"
  by (simp add: poolsOf_def putPools_def)

lemma poolsOf_putWaiting [simp]: "poolsOf m (putWaiting m' w q) = poolsOf m q"
  by (simp add: poolsOf_def putWaiting_def)

lemma waitingOf_putWaiting_other [simp]:
  "m \<noteq> m' \<Longrightarrow> waitingOf m (putWaiting m' w q) = waitingOf m q"
  by (cases m; cases m') (simp_all add: waitingOf_def putWaiting_def)

lemma poolsOf_putPools_other [simp]:
  "m \<noteq> m' \<Longrightarrow> poolsOf m (putPools m' p q) = poolsOf m q"
  by (cases m; cases m') (simp_all add: poolsOf_def putPools_def)

lemma createQueues_empty [simp]:
  "waitingOf m createQueues = []" "poolsOf m createQueues = Map.empty"
  by (simp_all add: createQueues_def waitingOf_def poolsOf_def)

lemma mk_simps [simp]:
  "sessionId (mk sid m is) = sid" "mode (mk sid m is) = m" "interests (mk sid m is) = is"
  by (simp_all add: mk_def)

text \<open>What the two loops over the interests leave under a key.\<close>

lemma removeFromPools_apply:
  "removeFromPools sid is p k =
     (if k \<in> toLowerCase ` set is
      then (case p k of None \<Rightarrow> None | Some s \<Rightarrow> if s - {sid} = {} then None else Some (s - {sid}))
      else p k)"
  by (induction "is" arbitrary: p) (auto split: option.splits simp: Let_def)

lemma addToPools_apply:
  "addToPools sid is p k =
     (if k \<noteq> [] \<and> k \<in> (\<lambda>i. toLowerCase (trim i)) ` set is
      then Some (insert sid (case p k of None \<Rightarrow> {} | Some s \<Rightarrow> s))
      else p k)"
  by (induction "is" arbitrary: p) (auto split: option.splits simp: Let_def)

lemma waitingOf_removeFromQueues:
  "waitingOf m (removeFromQueues q c) =
     (if m = mode c then remove1 (sessionId c) (waitingOf m q) else waitingOf m q)"
  by (simp add: removeFromQueues_def Let_def)

lemma poolsOf_removeFromQueues:
  "poolsOf m (removeFromQueues q c) =
     (if m = mode c then removeFromPools (sessionId c) (interests c) (poolsOf m q) else poolsOf m q)"
  by (simp add: removeFromQueues_def Let_def)

lemma waitingOf_enqueueClient:
  "waitingOf m (enqueueClient q c) =
     (if m = mode c then waitingOf m q @ [sessionId c] else waitingOf m q)"
  by (simp add: enqueueClient_def Let_def)

lemma poolsOf_enqueueClient:
  "poolsOf m (enqueueClient q c) =
     (if m = mode c then addToPools (sessionId c) (interests c) (poolsOf m q) else poolsOf m q)"
  by (simp add: enqueueClient_def Let_def)

section \<open>The scans of tryMatch\<close>

lemma scanCandidates_Some:
  "scanCandidates cs client reg w = Some (sid, other) \<Longrightarrow>
     sid \<in> set w \<and> sid \<noteq> sessionId client \<and> sid \<in> cs \<and> reg sid = Some other \<and>
     mode other = mode client"
  by (induction w) (auto split: if_splits option.splits)

lemma scanWaiting_Some:
  "scanWaiting client reg w = Some (sid, other) \<Longrightarrow>
     sid \<in> set w \<and> sid \<noteq> sessionId client \<and> reg sid = Some other \<and> mode other = mode client"
  by (induction w) (auto split: if_splits option.splits)

lemma tryMatch_Some:
  assumes "tryMatch q client reg = (q', Some (a, b))"
  shows "a = sessionId client \<and> b \<in> set (waitingOf (mode client) q) \<and> b \<noteq> sessionId client \<and>
     (\<exists>other. reg b = Some other \<and> mode other = mode client \<and>
        q' = removeFromQueues (removeFromQueues q client) other)"
  using assms unfolding tryMatch_def Let_def
  by (auto split: option.splits if_splits prod.splits
      dest!: scanCandidates_Some scanWaiting_Some)

lemma candidates_iff:
  "x \<in> candidates self pools is acc \<longleftrightarrow>
     x \<in> acc \<or> (x \<noteq> self \<and> (\<exists>i \<in> set is. \<exists>s. pools (toLowerCase i) = Some s \<and> x \<in> s))"
  by (induction "is" arbitrary: acc) (auto split: option.splits)

text \<open>
  The candidate set: the other ids in the pools of the client's mode under the
  lower-cased forms of the client's interests.
\<close>

lemma candidateSet_iff:
  "x \<in> candidateSet q client \<longleftrightarrow>
     x \<noteq> sessionId client \<and>
     (\<exists>i \<in> set (interests client). \<exists>s. poolsOf (mode client) q (toLowerCase i) = Some s \<and> x \<in> s)"
  by (simp add: candidateSet_def candidates_iff)

lemma scanCandidates_first:
  assumes "b \<in> cs" "eligible client reg b"
    and "\<forall>x \<in> set pre. \<not> (x \<in> cs \<and> eligible client reg x)"
  shows "\<exists>other. reg b = Some other \<and> scanCandidates cs client reg (pre @ b # post) = Some (b, other)"
  using assms by (induction pre) (auto simp add: eligible_def split: option.splits)

lemma scanCandidates_None:
  "\<forall>x \<in> set w. \<not> (x \<in> cs \<and> eligible client reg x) \<Longrightarrow> scanCandidates cs client reg w = None"
  by (induction w) (auto simp add: eligible_def split: option.splits)

lemma scanWaiting_first:
  assumes "eligible client reg b" and "\<forall>x \<in> set pre. \<not> eligible client reg x"
  shows "\<exists>other. reg b = Some other \<and> scanWaiting client reg (pre @ b # post) = Some (b, other)"
  using assms by (induction pre) (auto simp add: eligible_def split: option.splits)

lemma scanWaiting_None:
  "\<forall>x \<in> set w. \<not> eligible client reg x \<Longrightarrow> scanWaiting client reg w = None"
  by (induction w) (auto simp add: eligible_def split: option.splits)

lemma tryMatch_None: "tryMatch q client reg = (q', None) \<Longrightarrow> q' = q"
  unfolding tryMatch_def Let_def
  by (auto split: option.splits if_splits prod.splits)

section \<open>The test inputs, evaluated\<close>

lemma lower_tokens:
  "toLowerCase ''music'' = ''music''" "toLowerCase ''rock'' = ''rock''"
  "trim ''music'' = ''music''" "trim ''rock'' = ''rock''"
  by (simp_all add: toLowerCase_def lowerChar_def trim_def isWhiteSpace_def)

lemma scenario1_waiting: "waitingOf Text scenario1 = [''A'', ''B'']"
  by (simp add: scenario1_def waitingOf_enqueueClient)

lemma scenario1_result:
  "snd (tryMatch scenario1 (mk ''B'' Text []) [''A'' \<mapsto> mk ''A'' Text [], ''B'' \<mapsto> mk ''B'' Text []])
     = Some (''B'', ''A'')"
  by (simp add: tryMatch_def scenario1_waiting candidateSet_def)

lemma scenario2_waiting: "waitingOf Video scenario2 = [''A'', ''C'', ''B'']"
  by (simp add: scenario2_def waitingOf_enqueueClient)

lemma scenario2_pools: "poolsOf Video scenario2 = [''music'' \<mapsto> {''A'', ''B''}]"
  by (auto simp add: scenario2_def poolsOf_enqueueClient addToPools_apply lower_tokens fun_eq_iff)

lemma scenario2_candidates: "candidateSet scenario2 (mk ''B'' Video [''music'']) = {''A''}"
  by (auto simp: candidateSet_iff scenario2_pools lower_tokens split: if_splits)

lemma scenario2_result:
  "snd (tryMatch scenario2 (mk ''B'' Video [''music''])
        [''A'' \<mapsto> mk ''A'' Video [''music''], ''B'' \<mapsto> mk ''B'' Video [''music''],
         ''C'' \<mapsto> mk ''C'' Video []])
     = Some (''B'', ''A'')"
  by (simp add: tryMatch_def scenario2_waiting scenario2_candidates)

lemma scenario2b_waiting: "waitingOf Video scenario2b = [''C'', ''A'', ''B'']"
  by (simp add: scenario2b_def waitingOf_enqueueClient)

lemma scenario2b_pools: "poolsOf Video scenario2b = [''music'' \<mapsto> {''A'', ''B''}]"
  by (auto simp add: scenario2b_def poolsOf_enqueueClient addToPools_apply lower_tokens fun_eq_iff)

lemma scenario2b_candidates: "candidateSet scenario2b (mk ''B'' Video [''music'']) = {''A''}"
  by (auto simp: candidateSet_iff scenario2b_pools lower_tokens split: if_splits)

lemma selfFirst_waiting: "waitingOf Text selfFirst = [''B'', ''A'', ''C'']"
  by (simp add: selfFirst_def waitingOf_enqueueClient)

lemma selfFirst_candidates: "candidateSet selfFirst (mk ''B'' Text []) = {}"
  by (simp add: candidateSet_def)

lemma lone_waiting: "waitingOf Text (enqueueClient createQueues (mk ''B'' Text [])) = [''B'']"
  by (simp add: waitingOf_enqueueClient)

section \<open>Claims about matchmaking.js\<close>

text \<open>
  C10: whenever \<open>tryMatch\<close> returns a pair for a client, the first id is the client's,
  the partner's id differs from it, was in the FIFO of the client's mode, is present in
  the registry, and its record has the client's mode.
\<close>

theorem tryMatch_partner_valid:
  assumes "tryMatch q client reg = (q', Some (a, b))"
  shows "a = sessionId client \<and> b \<noteq> sessionId client \<and>
         b \<in> set (waitingOf (mode client) q) \<and>
         (\<exists>other. reg b = Some other \<and> mode other = mode client)"
  using tryMatch_Some [OF assms] by blast

theorem tryMatch_partner_valid_witness:
  "snd (tryMatch scenario1 (mk ''B'' Text []) [''A'' \<mapsto> mk ''A'' Text [], ''B'' \<mapsto> mk ''B'' Text []])
     = Some (''B'', ''A'') \<and>
   ''A'' \<noteq> sessionId (mk ''B'' Text []) \<and> ''A'' \<in> set (waitingOf Text scenario1) \<and>
   (\<exists>other. [''A'' \<mapsto> mk ''A'' Text [], ''B'' \<mapsto> mk ''B'' Text []] ''A'' = Some other \<and>
      mode other = Text)"
proof -
  obtain q' where h:
    "tryMatch scenario1 (mk ''B'' Text []) [''A'' \<mapsto> mk ''A'' Text [], ''B'' \<mapsto> mk ''B'' Text []]
       = (q', Some (''B'', ''A''))"
    using scenario1_result by (metis prod.collapse)
  show ?thesis
    using tryMatch_partner_valid [OF h] scenario1_result by simp
qed

text \<open>
  C2, as stated, fails: a non-empty candidate set does not make \<open>tryMatch\<close> return a
  candidate. In the queues of scenario 2, with A no longer in the registry, the candidate
  set of B is \<open>{A}\<close> and A is first in the FIFO, yet B is paired with C, which has no
  interests: the loop skips a candidate that is not registered.
\<close>

theorem tryMatch_stale_candidate_counterexample:
  "candidateSet scenario2 (mk ''B'' Video [''music'']) = {''A''} \<and>
   waitingOf Video scenario2 = [''A'', ''C'', ''B''] \<and>
   snd (tryMatch scenario2 (mk ''B'' Video [''music''])
          [''B'' \<mapsto> mk ''B'' Video [''music''], ''C'' \<mapsto> mk ''C'' Video []])
     = Some (''B'', ''C'')"
  by (simp add: scenario2_waiting scenario2_candidates tryMatch_def)

text \<open>
  C2, amended: when the FIFO of the client's mode holds an id that is in the client's
  candidate set, is registered and has the client's mode, \<open>tryMatch\<close> returns the pair
  of the client and the earliest such id, whatever waits before it. When the FIFO holds
  no such id, it returns the pair of the client and the earliest id that is not the
  client's own, is registered and has the client's mode; and when there is none of
  those either, it returns no pair and leaves the queues as they are. The witness holds
  scenario 2 (B is paired with A, not C), the same with C waiting first, the fallback
  past an unregistered candidate, the fallback with two sessions waiting behind the
  client, and a client alone in its queue.
\<close>

theorem tryMatch_earliest_valid_candidate:
  "(waitingOf (mode client) q = pre @ b # post \<and>
    b \<in> candidateSet q client \<and> eligible client reg b \<and>
    (\<forall>x \<in> set pre. \<not> (x \<in> candidateSet q client \<and> eligible client reg x))
      \<longrightarrow> snd (tryMatch q client reg) = Some (sessionId client, b)) \<and>
   ((\<forall>x \<in> set (waitingOf (mode client) q). \<not> (x \<in> candidateSet q client \<and> eligible client reg x)) \<and>
    waitingOf (mode client) q = pre @ b # post \<and> eligible client reg b \<and>
    (\<forall>x \<in> set pre. \<not> eligible client reg x)
      \<longrightarrow> snd (tryMatch q client reg) = Some (sessionId client, b)) \<and>
   ((\<forall>x \<in> set (waitingOf (mode client) q). \<not> eligible client reg x)
      \<longrightarrow> tryMatch q client reg = (q, None))"
proof (intro conjI impI)
  assume a: "waitingOf (mode client) q = pre @ b # post \<and>
    b \<in> candidateSet q client \<and> eligible client reg b \<and>
    (\<forall>x \<in> set pre. \<not> (x \<in> candidateSet q client \<and> eligible client reg x))"
  then have nonempty: "candidateSet q client \<noteq> {}" by blast
  from a obtain other where
    "scanCandidates (candidateSet q client) client reg (pre @ b # post) = Some (b, other)"
    using scanCandidates_first [of b "candidateSet q client" client reg pre post] by blast
  then show "snd (tryMatch q client reg) = Some (sessionId client, b)"
    using nonempty a by (simp add: tryMatch_def Let_def)
next
  assume a: "(\<forall>x \<in> set (waitingOf (mode client) q).
        \<not> (x \<in> candidateSet q client \<and> eligible client reg x)) \<and>
    waitingOf (mode client) q = pre @ b # post \<and> eligible client reg b \<and>
    (\<forall>x \<in> set pre. \<not> eligible client reg x)"
  then have n: "scanCandidates (candidateSet q client) client reg (waitingOf (mode client) q) = None"
    by (simp add: scanCandidates_None)
  from a obtain other where
    "scanWaiting client reg (pre @ b # post) = Some (b, other)"
    using scanWaiting_first [of client reg b pre post] by blast
  then show "snd (tryMatch q client reg) = Some (sessionId client, b)"
    using n a by (simp add: tryMatch_def Let_def)
next
  assume a: "\<forall>x \<in> set (waitingOf (mode client) q). \<not> eligible client reg x"
  then have "scanCandidates (candidateSet q client) client reg (waitingOf (mode client) q) = None"
    by (simp add: scanCandidates_None)
  moreover from a have "scanWaiting client reg (waitingOf (mode client) q) = None"
    by (rule scanWaiting_None)
  ultimately show "tryMatch q client reg = (q, None)"
    by (simp add: tryMatch_def Let_def)
qed

theorem tryMatch_earliest_valid_candidate_witness:
  "snd (tryMatch scenario2 (mk ''B'' Video [''music''])
        [''A'' \<mapsto> mk ''A'' Video [''music''], ''B'' \<mapsto> mk ''B'' Video [''music''],
         ''C'' \<mapsto> mk ''C'' Video []])
     = Some (''B'', ''A'') \<and>
   snd (tryMatch scenario2b (mk ''B'' Video [''music''])
        [''A'' \<mapsto> mk ''A'' Video [''music''], ''B'' \<mapsto> mk ''B'' Video [''music''],
         ''C'' \<mapsto> mk ''C'' Video []])
     = Some (''B'', ''A'') \<and>
   snd (tryMatch scenario2 (mk ''B'' Video [''music''])
        [''B'' \<mapsto> mk ''B'' Video [''music''], ''C'' \<mapsto> mk ''C'' Video []])
     = Some (''B'', ''C'') \<and>
   snd (tryMatch selfFirst (mk ''B'' Text [])
        [''A'' \<mapsto> mk ''A'' Text [], ''B'' \<mapsto> mk ''B'' Text [], ''C'' \<mapsto> mk ''C'' Text []])
     = Some (''B'', ''A'') \<and>
   tryMatch (enqueueClient createQueues (mk ''B'' Text [])) (mk ''B'' Text [])
        [''B'' \<mapsto> mk ''B'' Text []]
     = (enqueueClient createQueues (mk ''B'' Text []), None)"
proof -
  let ?b = "mk ''B'' Video [''music'']"
  let ?all = "[''A'' \<mapsto> mk ''A'' Video [''music''], ''B'' \<mapsto> ?b, ''C'' \<mapsto> mk ''C'' Video []]"
  let ?noA = "[''B'' \<mapsto> ?b, ''C'' \<mapsto> mk ''C'' Video []]"
  have 1: "snd (tryMatch scenario2 ?b ?all) = Some (''B'', ''A'')"
    using tryMatch_earliest_valid_candidate
      [where client = ?b and q = scenario2 and pre = "[]" and b = "''A''" and post = "[''C'', ''B'']"
        and reg = ?all]
    by (simp add: scenario2_waiting scenario2_candidates eligible_def)
  have 2: "snd (tryMatch scenario2b ?b ?all) = Some (''B'', ''A'')"
    using tryMatch_earliest_valid_candidate
      [where client = ?b and q = scenario2b and pre = "[''C'']" and b = "''A''" and post = "[''B'']"
        and reg = ?all]
    by (simp add: scenario2b_waiting scenario2b_candidates eligible_def)
  have 3: "snd (tryMatch scenario2 ?b ?noA) = Some (''B'', ''C'')"
    using tryMatch_earliest_valid_candidate
      [where client = ?b and q = scenario2 and pre = "[''A'']" and b = "''C''" and post = "[''B'']"
        and reg = ?noA]
    by (simp add: scenario2_waiting scenario2_candidates eligible_def)
  have 4: "tryMatch (enqueueClient createQueues (mk ''B'' Text [])) (mk ''B'' Text [])
        [''B'' \<mapsto> mk ''B'' Text []]
     = (enqueueClient createQueues (mk ''B'' Text []), None)"
    using tryMatch_earliest_valid_candidate
      [where client = "mk ''B'' Text []" and q = "enqueueClient createQueues (mk ''B'' Text [])"
        and reg = "[''B'' \<mapsto> mk ''B'' Text []]"]
    by (simp add: lone_waiting eligible_def)
  have 5: "snd (tryMatch selfFirst (mk ''B'' Text [])
        [''A'' \<mapsto> mk ''A'' Text [], ''B'' \<mapsto> mk ''B'' Text [], ''C'' \<mapsto> mk ''C'' Text []])
     = Some (''B'', ''A'')"
    using tryMatch_earliest_valid_candidate
      [where client = "mk ''B'' Text []" and q = selfFirst and pre = "[''B'']" and b = "''A''"
        and post = "[''C'']"
        and reg = "[''A'' \<mapsto> mk ''A'' Text [], ''B'' \<mapsto> mk ''B'' Text [], ''C'' \<mapsto> mk ''C'' Text []]"]
    by (simp add: selfFirst_waiting selfFirst_candidates eligible_def)
  from 1 2 3 5 4 show ?thesis by blast
qed

text \<open>
  C6, as stated, fails: \<open>enqueueClient\<close> has no guard. A, already in the text FIFO, is
  appended again by a second call, and the FIFO holds its id twice.
\<close>

theorem enqueueClient_twice_counterexample:
  "''A'' \<in> set (waitingOf Text (enqueueClient createQueues (mk ''A'' Text []))) \<and>
   waitingOf Text (enqueueClient (enqueueClient createQueues (mk ''A'' Text [])) (mk ''A'' Text []))
     = [''A'', ''A'']"
  by (simp add: waitingOf_enqueueClient)

text \<open>
  C6, amended: every call of \<open>enqueueClient\<close> appends the session's id to the tail of the
  FIFO of its mode, whether or not the id is already there, so a second call leaves the
  id there twice; only the interest pools, which are sets, are the same after the second
  call as after the first.
\<close>

theorem enqueueClient_appends:
  "waitingOf (mode c) (enqueueClient q c) = waitingOf (mode c) q @ [sessionId c] \<and>
   waitingOf (mode c) (enqueueClient (enqueueClient q c) c)
     = waitingOf (mode c) q @ [sessionId c, sessionId c] \<and>
   poolsOf (mode c) (enqueueClient (enqueueClient q c) c) = poolsOf (mode c) (enqueueClient q c)"
  by (auto simp add: waitingOf_enqueueClient poolsOf_enqueueClient addToPools_apply fun_eq_iff)

section \<open>The registry and the handlers' shared steps\<close>

lemma keys_map_entry: "map fst (AList.map_entry k f xs) = map fst xs"
  by (induction xs) auto

lemma getClient_setPairedWith:
  "getClient (setPairedWith k v st) x =
     (if x = k then map_option (\<lambda>c. c\<lparr>pairedWith := v\<rparr>) (getClient st k) else getClient st x)"
  by (simp add: getClient_def setPairedWith_def map_of_map_entry split: option.splits)

lemma setPairedWith_fields [simp]:
  "queues (setPairedWith k v st) = queues st"
  "outbox (setPairedWith k v st) = outbox st"
  "reportsQueue (setPairedWith k v st) = reportsQueue st"
  "timers (setPairedWith k v st) = timers st"
  "map fst (sessionIdToClient (setPairedWith k v st)) = map fst (sessionIdToClient st)"
  by (simp_all add: setPairedWith_def keys_map_entry)

lemma send_fields [simp]:
  "queues (send w m st) = queues st"
  "outbox (send w m st) = outbox st @ [(w, m)]"
  "reportsQueue (send w m st) = reportsQueue st"
  "timers (send w m st) = timers st"
  "sessionIdToClient (send w m st) = sessionIdToClient st"
  "getClient (send w m st) = getClient st"
  by (simp_all add: send_def getClient_def fun_eq_iff)

lemma getClient_upd [simp]:
  "getClient (st\<lparr>queues := q\<rparr>) = getClient st"
  "getClient (st\<lparr>timers := t\<rparr>) = getClient st"
  "getClient (st\<lparr>reportsQueue := r\<rparr>) = getClient st"
  "getClient (st\<lparr>outbox := ob\<rparr>) = getClient st"
  by (simp_all add: getClient_def fun_eq_iff)

lemma notifyPeer_none:
  "pairedPeer c = None \<Longrightarrow> notifyPeer note requeue c st = st"
  "pairedPeer c = Some p \<Longrightarrow> getClient st p = None \<Longrightarrow> notifyPeer note requeue c st = st"
  by (simp_all add: notifyPeer_def)

lemma notifyPeer_some:
  assumes "pairedPeer c = Some p" "getClient st p = Some peer"
  shows "getClient (notifyPeer note requeue c st) x =
           (if x = p then Some (peer\<lparr>pairedWith := None\<rparr>) else getClient st x)"
    and "outbox (notifyPeer note requeue c st) = outbox st @ [(ws peer, Debug note)]"
    and "queues (notifyPeer note requeue c st) =
           (if requeue then enqueueClient (queues st) peer else queues st)"
  using assms by (simp_all add: notifyPeer_def Let_def getClient_setPairedWith)

lemma notifyPeer_frame [simp]:
  "reportsQueue (notifyPeer note requeue c st) = reportsQueue st"
  "timers (notifyPeer note requeue c st) = timers st"
  "map fst (sessionIdToClient (notifyPeer note requeue c st)) = map fst (sessionIdToClient st)"
  "queues (notifyPeer note False c st) = queues st"
  by (simp_all add: notifyPeer_def Let_def split: option.splits)

lemma notifyPeer_registry:
  "sessionIdToClient (notifyPeer note requeue c st) = sessionIdToClient (notifyPeer note' requeue' c st)"
  by (simp add: notifyPeer_def Let_def send_def setPairedWith_def split: option.splits)

lemma getClient_delete:
  "getClient (st\<lparr>sessionIdToClient := AList.delete k (sessionIdToClient st')\<rparr>) x =
     (if x = k then None else getClient st' x)"
  by (simp add: getClient_def delete_conv')

lemma getClient_notifyPeer:
  "getClient (notifyPeer note requeue c st) x =
     (if pairedPeer c = Some x then map_option (\<lambda>r. r\<lparr>pairedWith := None\<rparr>) (getClient st x)
      else getClient st x)"
proof (cases "pairedPeer c")
  case None
  then show ?thesis by (simp add: notifyPeer_none)
next
  case (Some p)
  show ?thesis
  proof (cases "getClient st p")
    case None
    with Some show ?thesis by (auto simp add: notifyPeer_none)
  next
    case (Some peer)
    with \<open>pairedPeer c = Some p\<close> show ?thesis by (auto simp add: notifyPeer_some)
  qed
qed

text \<open>An id enqueued before another id is removed ends at the tail.\<close>

lemma requeued_tail:
  assumes "p \<noteq> sid" "sessionId peer = p" "sessionId c = sid"
  shows "waitingOf (mode peer) (removeFromQueues (enqueueClient q peer) c)
         = waitingOf (mode peer) (removeFromQueues q c) @ [p]"
  using assms
  by (auto simp add: waitingOf_removeFromQueues waitingOf_enqueueClient remove1_append remove1_idem)

lemma find_registry:
  assumes "find (\<lambda>(k, c). ws c = w) reg = Some (sid, c)" "distinct (map fst reg)"
  shows "map_of reg sid = Some c"
proof -
  from assms(1) have "(sid, c) \<in> set reg"
    by (auto simp: find_Some_iff in_set_conv_nth)
  with assms(2) show ?thesis by simp
qed

lemma unpaired_setPairedWith:
  "map_option (\<lambda>c. c\<lparr>pairedWith := None\<rparr>) (getClient (setPairedWith k v st) x)
     = map_option (\<lambda>c. c\<lparr>pairedWith := None\<rparr>) (getClient st x)"
  by (cases "getClient st k") (auto simp add: getClient_setPairedWith)

lemma applyAttempt_frame:
  "map_option (\<lambda>c. c\<lparr>pairedWith := None\<rparr>) (getClient (applyAttempt w att st) x)
     = map_option (\<lambda>c. c\<lparr>pairedWith := None\<rparr>) (getClient st x)"
  "map fst (sessionIdToClient (applyAttempt w att st)) = map fst (sessionIdToClient st)"
  "queues (applyAttempt w att st) = queues st"
  "timers (applyAttempt w att st) = timers st"
  by (auto simp add: applyAttempt_def unpaired_setPairedWith split: option.splits)

lemma runTryMatch_frame:
  "map_option (\<lambda>c. c\<lparr>pairedWith := None\<rparr>) (getClient (runTryMatch w c st) x)
     = map_option (\<lambda>c. c\<lparr>pairedWith := None\<rparr>) (getClient st x)"
  "map fst (sessionIdToClient (runTryMatch w c st)) = map fst (sessionIdToClient st)"
  "timers (runTryMatch w c st) = timers st"
  by (auto simp add: runTryMatch_def applyAttempt_frame split: prod.splits)

lemma attemptMatch_frame:
  "map_option (\<lambda>c. c\<lparr>pairedWith := None\<rparr>) (getClient (attemptMatch sid w st) x)
     = map_option (\<lambda>c. c\<lparr>pairedWith := None\<rparr>) (getClient st x)"
  "map fst (sessionIdToClient (attemptMatch sid w st)) = map fst (sessionIdToClient st)"
  "timers (attemptMatch sid w st) = timers st"
  by (auto simp add: attemptMatch_def runTryMatch_frame split: option.splits)

text \<open>Every state the server reaches from its initial state has such a registry.\<close>

lemma keyed_map_entry:
  fixes xs :: "(string \<times> ClientInfo) list"
  shows "list_all (\<lambda>(k, c). sessionId c = k) xs \<Longrightarrow>
     list_all (\<lambda>(k, c). sessionId c = k) (AList.map_entry x (\<lambda>c. c\<lparr>pairedWith := v\<rparr>) xs)"
  by (induction xs) auto

lemma wellKeyed_map_entry:
  "wellKeyed reg \<Longrightarrow> wellKeyed (AList.map_entry x (\<lambda>c. c\<lparr>pairedWith := v\<rparr>) reg)"
  by (simp add: wellKeyed_def distinct_map_entry keyed_map_entry)

lemma keyed_update:
  fixes xs :: "(string \<times> ClientInfo) list"
  shows "list_all (\<lambda>(k, c). sessionId c = k) xs \<Longrightarrow> sessionId info = sid \<Longrightarrow>
     list_all (\<lambda>(k, c). sessionId c = k) (AList.update sid info xs)"
  by (induction xs) auto

lemma wellKeyed_update:
  "wellKeyed reg \<Longrightarrow> sessionId info = sid \<Longrightarrow> wellKeyed (AList.update sid info reg)"
  by (simp add: wellKeyed_def distinct_update keyed_update)

lemma wellKeyed_delete: "wellKeyed reg \<Longrightarrow> wellKeyed (AList.delete k reg)"
proof -
  assume a: "wellKeyed reg"
  then have "distinct (map fst (AList.delete k reg))"
    by (simp add: wellKeyed_def distinct_delete)
  moreover from a have "list_all (\<lambda>(k, c). sessionId c = k) (AList.delete k reg)"
    by (auto simp add: wellKeyed_def list_all_iff AList.delete_eq)
  ultimately show ?thesis by (simp add: wellKeyed_def)
qed

lemma wellKeyed_lookup:
  "wellKeyed reg \<Longrightarrow> map_of reg k = Some c \<Longrightarrow> sessionId c = k"
  by (auto simp add: wellKeyed_def list_all_iff dest: map_of_SomeD)

lemma wellKeyed_setPairedWith:
  "wellKeyed (sessionIdToClient st) \<Longrightarrow> wellKeyed (sessionIdToClient (setPairedWith k v st))"
  by (simp add: setPairedWith_def wellKeyed_map_entry)

lemma wellKeyed_applyAttempt:
  "wellKeyed (sessionIdToClient st) \<Longrightarrow> wellKeyed (sessionIdToClient (applyAttempt w att st))"
  by (simp add: applyAttempt_def send_def wellKeyed_setPairedWith split: option.splits prod.splits)

lemma wellKeyed_runTryMatch:
  "wellKeyed (sessionIdToClient st) \<Longrightarrow> wellKeyed (sessionIdToClient (runTryMatch w c st))"
  by (simp add: runTryMatch_def wellKeyed_applyAttempt split: prod.splits)

lemma wellKeyed_attemptMatch:
  "wellKeyed (sessionIdToClient st) \<Longrightarrow> wellKeyed (sessionIdToClient (attemptMatch sid w st))"
  by (simp add: attemptMatch_def wellKeyed_runTryMatch split: option.splits)

lemma wellKeyed_notifyPeer:
  "wellKeyed (sessionIdToClient st) \<Longrightarrow>
   wellKeyed (sessionIdToClient (notifyPeer note requeue c st))"
  by (simp add: notifyPeer_def Let_def send_def wellKeyed_setPairedWith split: option.splits)

lemma wellKeyed_onJoin:
  "wellKeyed (sessionIdToClient st) \<Longrightarrow> wellKeyed (sessionIdToClient (onJoin w addr sid m raw st))"
  by (simp add: onJoin_def Let_def send_def wellKeyed_attemptMatch wellKeyed_update
      split: option.splits)

lemma wellKeyed_onLeave:
  "wellKeyed (sessionIdToClient st) \<Longrightarrow> wellKeyed (sessionIdToClient (onLeave sid st))"
  by (simp add: onLeave_def Let_def wellKeyed_notifyPeer wellKeyed_delete split: option.splits)

lemma wellKeyed_onNext:
  "wellKeyed (sessionIdToClient st) \<Longrightarrow> wellKeyed (sessionIdToClient (onNext sid st))"
  by (simp add: onNext_def Let_def wellKeyed_notifyPeer wellKeyed_runTryMatch
      wellKeyed_setPairedWith split: option.splits)

lemma wellKeyed_onReport:
  "wellKeyed (sessionIdToClient st) \<Longrightarrow>
   wellKeyed (sessionIdToClient (onReport addr sid reason st))"
  by (simp add: onReport_def Let_def wellKeyed_notifyPeer wellKeyed_setPairedWith
      split: option.splits)

lemma wellKeyed_onRelay:
  "wellKeyed (sessionIdToClient st) \<Longrightarrow> wellKeyed (sessionIdToClient (onRelay k dest body st))"
  by (simp add: onRelay_def send_def split: option.splits)

lemma wellKeyed_onClose:
  "wellKeyed (sessionIdToClient st) \<Longrightarrow> wellKeyed (sessionIdToClient (onClose w st))"
  by (simp add: onClose_def Let_def wellKeyed_notifyPeer wellKeyed_delete
      split: option.splits prod.splits)

lemma wellKeyed_step:
  assumes "wellKeyed (sessionIdToClient st)"
  shows "wellKeyed (sessionIdToClient (step e st))"
proof (cases e)
  case (Message w addr msg)
  show ?thesis
    unfolding Message using assms
    by (cases msg)
      (simp_all add: wellKeyed_onJoin wellKeyed_onLeave wellKeyed_onNext wellKeyed_onReport
        wellKeyed_onRelay send_def)
next
  case (Close w)
  show ?thesis unfolding Close using assms by (simp add: wellKeyed_onClose)
next
  case TimerFires
  show ?thesis
  proof (cases "timers st")
    case Nil
    with assms show ?thesis unfolding TimerFires by simp
  next
    case (Cons t rest)
    have "wellKeyed (sessionIdToClient (fire t (st\<lparr>timers := rest\<rparr>)))"
      using assms by (cases t) (simp_all add: wellKeyed_attemptMatch wellKeyed_runTryMatch)
    with Cons show ?thesis unfolding TimerFires by simp
  qed
qed

lemma wellKeyed_run:
  "wellKeyed (sessionIdToClient st) \<Longrightarrow> wellKeyed (sessionIdToClient (run es st))"
  unfolding run_def by (induction es arbitrary: st) (simp_all add: wellKeyed_step)

lemma wellKeyed_reachable: "wellKeyed (sessionIdToClient (run es initialState))"
  by (rule wellKeyed_run) (simp add: wellKeyed_def initialState_def)

text \<open>The deferred attempt of a join does nothing when the session is no longer registered.\<close>

lemma join_attempt_after_removal:
  "getClient st sid = None \<Longrightarrow> fire (JoinAttempt sid w) st = st"
  by (simp add: attemptMatch_def)

section \<open>The server inputs, evaluated\<close>

lemma valid_ids: "isValidUuidV4 idA" "isValidUuidV4 idB" "isValidUuidV4 idC"
  by (simp_all add: idA_def idB_def idC_def isValidUuidV4_def uuidV4Pattern_def isHex_def eval_nat_numeral)

lemma ids_neq:
  "idA \<noteq> idB" "idA \<noteq> idC" "idB \<noteq> idC" "idB \<noteq> idA" "idC \<noteq> idA" "idC \<noteq> idB"
  "idA \<noteq> []" "idB \<noteq> []" "idC \<noteq> []"
  by (simp_all add: idA_def idB_def idC_def)

lemma norm_tokens:
  "toLowerCase (trim ''music'') = ''music''" "toLowerCase (trim ''x'') = ''x''"
  "toLowerCase ''music'' = ''music''" "toLowerCase ''x'' = ''x''"
  "toLowerCase (trim ''y'') = ''y''" "toLowerCase ''y'' = ''y''"
  "toLowerCase (trim ''rock'') = ''rock''" "toLowerCase ''rock'' = ''rock''"
  by (simp_all add: toLowerCase_def trim_def lowerChar_def isWhiteSpace_def)

text \<open>The equations that run the handlers on a concrete state.\<close>

lemmas server_eval =
  run_def initialState_def createQueues_def onJoin_def parseMode_def sanitizeInterests_def
  enqueueClient_def removeFromQueues_def tryMatch_def candidateSet_def waitingOf_def
  poolsOf_def putWaiting_def putPools_def attemptMatch_def runTryMatch_def applyAttempt_def
  getClient_def send_def setPairedWith_def pairedPeer_def notifyPeer_def onLeave_def
  onNext_def onReport_def onClose_def AList.delete_eq Let_def valid_ids ids_neq norm_tokens
  joined_def

lemma waitingA_value:
  "waitingA =
     \<lparr>sessionIdToClient = [(idA, joined idA Text [] 1 None)],
      queues = createQueues\<lparr>waiting_text := [idA]\<rparr>,
      reportsQueue = [], outbox = [(1, Waiting)], timers = []\<rparr>"
  by (simp add: waitingA_def server_eval)

lemma pairedAB_value:
  "pairedAB =
     \<lparr>sessionIdToClient =
        [(idA, joined idA Text [] 1 (Some idB)), (idB, joined idB Text [] 2 (Some idA))],
      queues = createQueues, reportsQueue = [],
      outbox = [(1, Waiting), (2, Paired idA), (1, Paired idB)], timers = []\<rparr>"
  by (simp add: pairedAB_def server_eval)

lemma staleNext_value:
  "staleNext =
     \<lparr>sessionIdToClient = [(idB, joined idB Text [''y''] 2 None)],
      queues = createQueues\<lparr>waiting_text := [idB], interestPoolsText := [''y'' \<mapsto> {idB}]\<rparr>,
      reportsQueue = [], outbox = [],
      timers = [NextAttempt (joined idA Text [''x''] 1 None), JoinAttempt idB 2]\<rparr>"
  by (simp add: staleNext_def server_eval)

lemma waitingAC_value:
  "waitingAC =
     \<lparr>sessionIdToClient = [(idA, joined idA Text [] 1 None), (idC, joined idC Video [] 3 None)],
      queues = createQueues\<lparr>waiting_text := [idA], waiting_video := [idC]\<rparr>,
      reportsQueue = [], outbox = [(1, Waiting), (3, Waiting)], timers = []\<rparr>"
  by (simp add: waitingAC_def server_eval)

lemma rejoin_alone:
  "snd (tryMatch (enqueueClient (queues waitingA) (joined idA Video [] 2 None))
         (joined idA Video [] 2 None)
         ((getClient waitingA)(idA \<mapsto> joined idA Video [] 2 None))) = None"
  by (simp add: waitingA_value server_eval)

lemma rejoin_matched:
  "snd (tryMatch (enqueueClient (queues waitingAC) (joined idA Video [] 2 None))
         (joined idA Video [] 2 None)
         ((getClient waitingAC)(idA \<mapsto> joined idA Video [] 2 None))) = Some (idA, idC)"
  by (simp add: waitingAC_value server_eval)

lemma rejoined_value:
  "rejoined =
     \<lparr>sessionIdToClient =
        [(idA, joined idA Text [''rock''] 1 (Some idB)), (idB, joined idB Text [] 2 (Some idA))],
      queues = createQueues\<lparr>waiting_text := [idA], interestPoolsText := [''music'' \<mapsto> {idA}]\<rparr>,
      reportsQueue = [],
      outbox = [(2, Paired idA), (1, Paired idB)],
      timers = [JoinAttempt idA 1, JoinAttempt idA 1]\<rparr>"
  by (simp add: rejoined_def server_eval)

section \<open>Claims about the server\<close>

text \<open>
  C1: pairing is symmetric after every operation, \<open>A.pairedWith = B\<close> if and only
  if \<open>B.pairedWith = A\<close>. The code does not keep this. A joins with an interest, so
  its attempt is deferred; B joins without interests and is paired with A at once; C joins
  with an interest and waits. When A's timer fires, \<open>attemptMatch\<close> does not look at
  A's \<open>pairedWith\<close>: it pairs A with C. B is still paired with A, and A is paired
  with C.
\<close>

theorem deferred_attempt_breaks_symmetry:
  "map (\<lambda>(k, c). (k, pairedWith c)) (sessionIdToClient (run
     [Message 1 ''ip'' (Join idA ''video'' (Some [JString ''music''])),
      Message 2 ''ip'' (Join idB ''video'' None),
      Message 3 ''ip'' (Join idC ''video'' (Some [JString ''x''])),
      TimerFires] initialState))
   = [(idA, Some idC), (idB, Some idA), (idC, Some idA)]"
  by (simp add: server_eval)

text \<open>
  C3: whenever \<open>tryMatch\<close> returns a pair, neither session is left in the FIFO or in
  any pool, so a snapshot of the queues never yields the same partner twice. The code
  does not keep this. A joins twice with the same id (the FIFO holds A twice, the pools
  of music and rock hold A, the record is the one with rock); B joins and is paired with
  A. \<open>removeFromQueues\<close> takes one occurrence of A out of the FIFO and A out of the
  pool of rock: A, now paired, still waits in the FIFO and in the pool of music. The next
  join, C, is handed A again, and B is left paired with a session that is paired with C.
\<close>

theorem match_leaves_partner_queued:
  "map (\<lambda>(k, c). (k, pairedWith c)) (sessionIdToClient rejoined)
     = [(idA, Some idB), (idB, Some idA)] \<and>
   outbox rejoined = [(2, Paired idA), (1, Paired idB)] \<and>
   waitingOf Text (queues rejoined) = [idA] \<and>
   poolsOf Text (queues rejoined) = [''music'' \<mapsto> {idA}] \<and>
   map (\<lambda>(k, c). (k, pairedWith c))
     (sessionIdToClient (step (Message 3 ''ip'' (Join idC ''text'' None)) rejoined))
     = [(idA, Some idC), (idB, Some idA), (idC, Some idA)]"
  by (simp add: rejoined_value server_eval)

text \<open>
  C4, as stated, fails: the report handler deletes nothing. After A, registered and
  waiting, reports, a lookup of A still finds its record, and A is still queued.
\<close>

theorem report_keeps_registry_counterexample:
  "getClient (step (Message 1 ''ip'' (Report idA ''spam'')) waitingA) idA
     = Some (joined idA Text [] 1 None) \<and>
   waitingOf Text (queues (step (Message 1 ''ip'' (Report idA ''spam'')) waitingA)) = [idA]"
  by (simp add: waitingA_value server_eval)

text \<open>
  C4, amended: a report by a registered session adds the report to the report queue and
  leaves the registry's keys and the queues and pools as they are; the reporter stays
  registered, with \<open>pairedWith\<close> cleared if it was paired; and if it was paired with a
  registered peer, the peer's \<open>pairedWith\<close> is cleared and the peer is sent
  \<open>peer_reported\<close>.
\<close>

theorem onReport_keeps_reporter:
  assumes "getClient st sid = Some c"
  shows "map fst (sessionIdToClient (onReport addr sid reason st)) = map fst (sessionIdToClient st) \<and>
         queues (onReport addr sid reason st) = queues st \<and>
         reportsQueue (onReport addr sid reason st) = reportsQueue st @ [(sid, reason, addr)] \<and>
         getClient (onReport addr sid reason st) sid =
           Some (if pairedPeer c = None then c else c\<lparr>pairedWith := None\<rparr>) \<and>
         (\<forall>p peer. pairedPeer c = Some p \<longrightarrow> getClient st p = Some peer \<longrightarrow>
            getClient (onReport addr sid reason st) p = Some (peer\<lparr>pairedWith := None\<rparr>) \<and>
            outbox (onReport addr sid reason st) = outbox st @ [(ws peer, Debug ''peer_reported'')])"
proof (cases "pairedPeer c")
  case None
  then show ?thesis using assms by (simp add: onReport_def Let_def)
next
  case (Some p)
  show ?thesis
  proof (cases "getClient st p")
    case None
    then show ?thesis using assms Some
      by (simp add: onReport_def Let_def notifyPeer_none getClient_setPairedWith)
  next
    case (Some peer)
    then show ?thesis using assms \<open>pairedPeer c = Some p\<close>
      by (auto simp add: onReport_def Let_def notifyPeer_some getClient_setPairedWith)
  qed
qed

theorem onReport_keeps_reporter_witness:
  "getClient (onReport ''ip'' idA ''spam'' pairedAB) idA = Some (joined idA Text [] 1 None) \<and>
   getClient (onReport ''ip'' idA ''spam'' pairedAB) idB = Some (joined idB Text [] 2 None) \<and>
   map fst (sessionIdToClient (onReport ''ip'' idA ''spam'' pairedAB)) = [idA, idB] \<and>
   queues (onReport ''ip'' idA ''spam'' pairedAB) = queues pairedAB \<and>
   outbox (onReport ''ip'' idA ''spam'' pairedAB) = outbox pairedAB @ [(2, Debug ''peer_reported'')]"
  using onReport_keeps_reporter [of pairedAB idA "joined idA Text [] 1 (Some idB)" "''ip''" "''spam''"]
  by (simp add: pairedAB_value getClient_def pairedPeer_def joined_def ids_neq)

text \<open>
  C5, as stated, fails: the close handler puts the peer back in its queue, the leave
  handler does not. With A and B paired, after the close of A's connection B waits in
  the text FIFO; after A's leave the FIFO is empty.
\<close>

theorem close_requeues_peer_counterexample:
  "waitingOf Text (queues (step (Close 1) pairedAB)) = [idB] \<and>
   waitingOf Text (queues (step (Message 1 ''ip'' (Leave idA)) pairedAB)) = [] \<and>
   step (Close 1) pairedAB \<noteq> step (Message 1 ''ip'' (Leave idA)) pairedAB"
proof -
  have 1: "waitingOf Text (queues (step (Close 1) pairedAB)) = [idB]"
    by (simp add: pairedAB_value server_eval)
  have 2: "waitingOf Text (queues (step (Message 1 ''ip'' (Leave idA)) pairedAB)) = []"
    by (simp add: pairedAB_value server_eval)
  from 1 2 show ?thesis by (metis list.distinct(1))
qed

text \<open>
  C5, amended: for the first registered session of the closed connection, in a state
  whose registry is well keyed (every reachable state, \<open>wellKeyed_reachable\<close>), the
  close deletes the session's record and clears the \<open>pairedWith\<close> of its registered
  peer, and leaves every other record as it is; the registry, the reports and the timers
  after the close are those after a leave of that session. If the session was not
  paired, or its peer is not registered, the whole state is that after the leave: the
  session is taken out of the queues and nothing is sent. If it was paired with a
  registered peer, the states differ: the close sends the peer \<open>peer_disconnected\<close>
  (the leave: \<open>peer_left\<close>) and enqueues the peer again before it takes the session
  out of the queues (the leave: no enqueue), so that the FIFO of the peer's mode after
  the close is the one after the leave with the peer's id appended.
\<close>

theorem onClose_versus_onLeave:
  assumes f: "find (\<lambda>(k, c). ws c = w) (sessionIdToClient st) = Some (sid, c)"
    and ok: "wellKeyed (sessionIdToClient st)"
  shows "sessionIdToClient (onClose w st) = sessionIdToClient (onLeave sid st) \<and>
         reportsQueue (onClose w st) = reportsQueue (onLeave sid st) \<and>
         timers (onClose w st) = timers (onLeave sid st) \<and>
         getClient (onClose w st) sid = None \<and>
         (\<forall>x. x \<noteq> sid \<longrightarrow>
            getClient (onClose w st) x =
              (if pairedPeer c = Some x
               then map_option (\<lambda>r. r\<lparr>pairedWith := None\<rparr>) (getClient st x)
               else getClient st x)) \<and>
         (pairedPeer c = None \<or> (\<exists>p. pairedPeer c = Some p \<and> getClient st p = None)
            \<longrightarrow> onClose w st = onLeave sid st \<and>
                queues (onClose w st) = removeFromQueues (queues st) c \<and>
                outbox (onClose w st) = outbox st) \<and>
         (\<forall>p peer. pairedPeer c = Some p \<longrightarrow> getClient st p = Some peer \<longrightarrow>
            queues (onClose w st) = removeFromQueues (enqueueClient (queues st) peer) c \<and>
            queues (onLeave sid st) = removeFromQueues (queues st) c \<and>
            outbox (onClose w st) = outbox st @ [(ws peer, Debug ''peer_disconnected'')] \<and>
            outbox (onLeave sid st) = outbox st @ [(ws peer, Debug ''peer_left'')] \<and>
            onClose w st \<noteq> onLeave sid st \<and>
            (p \<noteq> sid \<longrightarrow>
               getClient (onClose w st) p = Some (peer\<lparr>pairedWith := None\<rparr>) \<and>
               getClient (onLeave sid st) p = Some (peer\<lparr>pairedWith := None\<rparr>) \<and>
               waitingOf (mode peer) (queues (onClose w st))
                 = waitingOf (mode peer) (queues (onLeave sid st)) @ [p]))"
proof -
  from ok have d: "distinct (map fst (sessionIdToClient st))"
    by (simp add: wellKeyed_def)
  have g: "getClient st sid = Some c"
    using find_registry [OF f d] by (simp add: getClient_def)
  from ok g have k: "sessionId c = sid"
    by (simp add: getClient_def wellKeyed_lookup)
  have c: "onClose w st =
      (let st1 = notifyPeer ''peer_disconnected'' True c st;
           st2 = st1\<lparr>queues := removeFromQueues (queues st1) c\<rparr>
       in st2\<lparr>sessionIdToClient := AList.delete sid (sessionIdToClient st2)\<rparr>)"
    using f by (simp add: onClose_def)
  have l: "onLeave sid st =
      (let st1 = notifyPeer ''peer_left'' False c st;
           st2 = st1\<lparr>queues := removeFromQueues (queues st1) c\<rparr>
       in st2\<lparr>sessionIdToClient := AList.delete sid (sessionIdToClient st2)\<rparr>)"
    using g k by (simp add: onLeave_def)
  have r: "sessionIdToClient (notifyPeer ''peer_disconnected'' True c st)
      = sessionIdToClient (notifyPeer ''peer_left'' False c st)"
    by (rule notifyPeer_registry)
  have 1: "sessionIdToClient (onClose w st) = sessionIdToClient (onLeave sid st)"
    unfolding c l by (simp add: Let_def r)
  have 2: "reportsQueue (onClose w st) = reportsQueue (onLeave sid st)"
    "timers (onClose w st) = timers (onLeave sid st)"
    unfolding c l by (simp_all add: Let_def)
  have gc: "getClient (onClose w st) x =
      (if x = sid then None else getClient (notifyPeer ''peer_disconnected'' True c st) x)" for x
    unfolding c Let_def by (simp add: getClient_delete)
  have gl: "getClient (onLeave sid st) x = getClient (onClose w st) x" for x
    using 1 by (simp add: getClient_def)
  have 3: "getClient (onClose w st) sid = None"
    by (simp add: gc)
  have 4: "getClient (onClose w st) x =
      (if pairedPeer c = Some x
       then map_option (\<lambda>r. r\<lparr>pairedWith := None\<rparr>) (getClient st x)
       else getClient st x)" if "x \<noteq> sid" for x
    using that by (simp add: gc getClient_notifyPeer)
  have 5: "onClose w st = onLeave sid st \<and>
      queues (onClose w st) = removeFromQueues (queues st) c \<and> outbox (onClose w st) = outbox st"
    if "pairedPeer c = None \<or> (\<exists>p. pairedPeer c = Some p \<and> getClient st p = None)"
    unfolding c l using that by (auto simp add: notifyPeer_none)
  have 6: "queues (onClose w st) = removeFromQueues (enqueueClient (queues st) peer) c \<and>
      queues (onLeave sid st) = removeFromQueues (queues st) c \<and>
      outbox (onClose w st) = outbox st @ [(ws peer, Debug ''peer_disconnected'')] \<and>
      outbox (onLeave sid st) = outbox st @ [(ws peer, Debug ''peer_left'')]"
    if "pairedPeer c = Some p" "getClient st p = Some peer" for p peer
    unfolding c l using that by (simp add: Let_def notifyPeer_some)
  have 7: "onClose w st \<noteq> onLeave sid st"
    if "pairedPeer c = Some p" "getClient st p = Some peer" for p peer
  proof
    assume e: "onClose w st = onLeave sid st"
    from 6 [OF that] have "outbox (onClose w st) = outbox st @ [(ws peer, Debug ''peer_disconnected'')]"
      and "outbox (onLeave sid st) = outbox st @ [(ws peer, Debug ''peer_left'')]"
      by blast+
    then have "outbox st @ [(ws peer, Debug ''peer_disconnected'')]
        = outbox st @ [(ws peer, Debug ''peer_left'')]"
      unfolding e by simp
    then show False by simp
  qed
  have 8: "getClient (onClose w st) p = Some (peer\<lparr>pairedWith := None\<rparr>) \<and>
      getClient (onLeave sid st) p = Some (peer\<lparr>pairedWith := None\<rparr>) \<and>
      waitingOf (mode peer) (queues (onClose w st))
        = waitingOf (mode peer) (queues (onLeave sid st)) @ [p]"
    if "pairedPeer c = Some p" "getClient st p = Some peer" "p \<noteq> sid" for p peer
  proof -
    from ok that(2) have "sessionId peer = p"
      by (simp add: getClient_def wellKeyed_lookup)
    with that(3) k have "waitingOf (mode peer) (removeFromQueues (enqueueClient (queues st) peer) c)
         = waitingOf (mode peer) (removeFromQueues (queues st) c) @ [p]"
      by (simp add: requeued_tail)
    moreover have "getClient (onClose w st) p = Some (peer\<lparr>pairedWith := None\<rparr>)"
      using that by (simp add: 4)
    ultimately show ?thesis
      using 6 [OF that(1,2)] by (simp add: gl)
  qed
  from 1 2 3 4 5 6 7 8 show ?thesis by blast
qed

theorem onClose_versus_onLeave_witness:
  "onClose 1 waitingA = onLeave idA waitingA \<and>
   getClient (onClose 1 waitingA) idA = None \<and>
   queues (onClose 1 waitingA) = removeFromQueues (queues waitingA) (joined idA Text [] 1 None) \<and>
   sessionIdToClient (onClose 1 pairedAB) = sessionIdToClient (onLeave idA pairedAB) \<and>
   getClient (onClose 1 pairedAB) idA = None \<and>
   getClient (onClose 1 pairedAB) idB = Some (joined idB Text [] 2 None) \<and>
   getClient (onLeave idA pairedAB) idB = Some (joined idB Text [] 2 None) \<and>
   waitingOf Text (queues (onClose 1 pairedAB)) = waitingOf Text (queues (onLeave idA pairedAB)) @ [idB] \<and>
   outbox (onClose 1 pairedAB) = outbox pairedAB @ [(2, Debug ''peer_disconnected'')] \<and>
   outbox (onLeave idA pairedAB) = outbox pairedAB @ [(2, Debug ''peer_left'')] \<and>
   onClose 1 pairedAB \<noteq> onLeave idA pairedAB"
proof -
  have fA: "find (\<lambda>(k, c). ws c = 1) (sessionIdToClient waitingA)
      = Some (idA, joined idA Text [] 1 None)"
    by (simp add: waitingA_value joined_def)
  have okA: "wellKeyed (sessionIdToClient waitingA)"
    unfolding waitingA_def by (rule wellKeyed_reachable)
  have uA: "pairedPeer (joined idA Text [] 1 None) = None"
    by (simp add: pairedPeer_def joined_def)
  have fB: "find (\<lambda>(k, c). ws c = 1) (sessionIdToClient pairedAB)
      = Some (idA, joined idA Text [] 1 (Some idB))"
    by (simp add: pairedAB_value joined_def)
  have okB: "wellKeyed (sessionIdToClient pairedAB)"
    unfolding pairedAB_def by (rule wellKeyed_reachable)
  have pB: "pairedPeer (joined idA Text [] 1 (Some idB)) = Some idB"
    by (simp add: pairedPeer_def joined_def ids_neq)
  have gB: "getClient pairedAB idB = Some (joined idB Text [] 2 (Some idA))"
    by (simp add: pairedAB_value getClient_def ids_neq)
  have cl: "(joined idB Text [] 2 (Some idA))\<lparr>pairedWith := None\<rparr> = joined idB Text [] 2 None"
    "mode (joined idB Text [] 2 (Some idA)) = Text" "ws (joined idB Text [] 2 (Some idA)) = 2"
    by (simp_all add: joined_def)
  note tA = onClose_versus_onLeave [OF fA okA]
  note tB = onClose_versus_onLeave [OF fB okB]
  note tA4 = tA [THEN conjunct2, THEN conjunct2, THEN conjunct2, THEN conjunct1]
  note tA6 = tA [THEN conjunct2, THEN conjunct2, THEN conjunct2, THEN conjunct2, THEN conjunct2,
      THEN conjunct1, THEN mp, OF disjI1, OF uA]
  note tB1 = tB [THEN conjunct1]
  note tB4 = tB [THEN conjunct2, THEN conjunct2, THEN conjunct2, THEN conjunct1]
  note tB7 = tB [THEN conjunct2, THEN conjunct2, THEN conjunct2, THEN conjunct2, THEN conjunct2,
      THEN conjunct2, THEN spec, THEN spec, THEN mp, THEN mp, OF pB gB]
  note tB7a = tB7 [THEN conjunct2, THEN conjunct2, THEN conjunct1]
  note tB7b = tB7 [THEN conjunct2, THEN conjunct2, THEN conjunct2, THEN conjunct1]
  note tB7c = tB7 [THEN conjunct2, THEN conjunct2, THEN conjunct2, THEN conjunct2, THEN conjunct1]
  note tB7d = tB7 [THEN conjunct2, THEN conjunct2, THEN conjunct2, THEN conjunct2, THEN conjunct2,
      THEN mp, OF ids_neq(4), unfolded cl]
  show ?thesis
    by (intro conjI tA4 tA6 [THEN conjunct1] tA6 [THEN conjunct2, THEN conjunct1] tB1 tB4
        tB7a [unfolded cl] tB7b [unfolded cl] tB7c
        tB7d [THEN conjunct1] tB7d [THEN conjunct2, THEN conjunct1]
        tB7d [THEN conjunct2, THEN conjunct2])
qed

text \<open>
  C7, as stated, fails: a join with the id of a registered session does not fail. The
  record of A (text, connection 1) is replaced by the record of the second join (video,
  connection 2).
\<close>

theorem join_overwrites_record_counterexample:
  "getClient waitingA idA = Some (joined idA Text [] 1 None) \<and>
   getClient (step (Message 2 ''ip'' (Join idA ''video'' None)) waitingA) idA
     = Some (joined idA Video [] 2 None)"
  by (simp add: waitingA_value server_eval)

text \<open>
  C7, amended: a join with a valid id and mode never fails on an id that is registered
  (in a state whose registry is well keyed, as every reachable state is). It files the fresh record \<open>info\<close> (the new mode, interests and connection,
  \<open>pairedWith\<close> unset) under the id, in place of any record that was there, of which
  nothing is kept; the registry keeps one entry per id, a new id going to the end; and the
  id is appended to the FIFO of its mode again. With interests the attempt is deferred:
  the record read back is \<open>info\<close>, the queues are those after the enqueue, and a timer
  is set. Without interests \<open>tryMatch\<close> runs at once on the queues after the enqueue:
  if it finds no partner the record is \<open>info\<close> and \<open>waiting\<close> is sent; if it
  returns a partner, the record is \<open>info\<close> paired with that partner, the partner's
  record is paired with the id, both are notified, and the queues are those
  \<open>tryMatch\<close> leaves.
\<close>

theorem onJoin_replaces_record:
  assumes v: "isValidUuidV4 sid" and p: "parseMode m = Some md"
    and ok: "wellKeyed (sessionIdToClient st)"
    and i: "info = \<lparr>sessionId = sid, mode = md, interests = sanitizeInterests raw, ws = w,
                     pairedWith = None, ip = addr\<rparr>"
  shows "map fst (sessionIdToClient (onJoin w addr sid m raw st))
           = (if sid \<in> set (map fst (sessionIdToClient st)) then map fst (sessionIdToClient st)
              else map fst (sessionIdToClient st) @ [sid]) \<and>
         (sanitizeInterests raw \<noteq> [] \<longrightarrow>
            getClient (onJoin w addr sid m raw st) = (getClient st)(sid \<mapsto> info) \<and>
            queues (onJoin w addr sid m raw st) = enqueueClient (queues st) info \<and>
            waitingOf md (queues (onJoin w addr sid m raw st)) = waitingOf md (queues st) @ [sid] \<and>
            timers (onJoin w addr sid m raw st) = timers st @ [JoinAttempt sid w] \<and>
            outbox (onJoin w addr sid m raw st) = outbox st) \<and>
         (sanitizeInterests raw = [] \<longrightarrow>
            timers (onJoin w addr sid m raw st) = timers st \<and>
            (\<forall>q'. tryMatch (enqueueClient (queues st) info) info ((getClient st)(sid \<mapsto> info))
                    = (q', None) \<longrightarrow>
               getClient (onJoin w addr sid m raw st) = (getClient st)(sid \<mapsto> info) \<and>
               queues (onJoin w addr sid m raw st) = enqueueClient (queues st) info \<and>
               waitingOf md (queues (onJoin w addr sid m raw st)) = waitingOf md (queues st) @ [sid] \<and>
               outbox (onJoin w addr sid m raw st) = outbox st @ [(w, Waiting)]) \<and>
            (\<forall>q' a b. tryMatch (enqueueClient (queues st) info) info ((getClient st)(sid \<mapsto> info))
                    = (q', Some (a, b)) \<longrightarrow>
               a = sid \<and> b \<noteq> sid \<and>
               (\<exists>peer. getClient st b = Some peer \<and>
                  getClient (onJoin w addr sid m raw st)
                    = (getClient st)(sid \<mapsto> info\<lparr>pairedWith := Some b\<rparr>,
                                     b \<mapsto> peer\<lparr>pairedWith := Some sid\<rparr>) \<and>
                  queues (onJoin w addr sid m raw st)
                    = removeFromQueues (removeFromQueues (enqueueClient (queues st) info) info) peer \<and>
                  outbox (onJoin w addr sid m raw st)
                    = outbox st @ [(w, Paired b), (ws peer, Paired sid)])))"
proof -
  let ?st1 = "st\<lparr>sessionIdToClient := AList.update sid info (sessionIdToClient st),
                queues := enqueueClient (queues st) info\<rparr>"
  let ?reg1 = "(getClient st)(sid \<mapsto> info)"
  let ?q1 = "enqueueClient (queues st) info"
  have fld: "interests info = sanitizeInterests raw" "sessionId info = sid" "ws info = w"
    by (simp_all add: i)
  have tail: "waitingOf md ?q1 = waitingOf md (queues st) @ [sid]"
    by (simp add: waitingOf_enqueueClient i)
  have g0: "getClient (st\<lparr>sessionIdToClient := AList.update sid info (sessionIdToClient st)\<rparr>)
      = ?reg1"
    by (simp add: getClient_def update_conv' fun_eq_iff)
  have g1: "getClient ?st1 = ?reg1"
    by (simp add: g0)
  have ks: "map fst (sessionIdToClient ?st1)
      = (if sid \<in> set (map fst (sessionIdToClient st)) then map fst (sessionIdToClient st)
         else map fst (sessionIdToClient st) @ [sid])"
    by (simp add: update_keys)
  have ok1: "wellKeyed (sessionIdToClient ?st1)"
    using ok fld(2) by (simp add: wellKeyed_update)
  have d: "onJoin w addr sid m raw st = ?st1\<lparr>timers := timers ?st1 @ [JoinAttempt sid w]\<rparr>"
    if "sanitizeInterests raw \<noteq> []"
    using v p that by (simp add: onJoin_def Let_def i)
  have im: "onJoin w addr sid m raw st = runTryMatch w info ?st1"
    if "sanitizeInterests raw = []"
  proof -
    have "onJoin w addr sid m raw st = attemptMatch sid w ?st1"
      using v p that by (simp add: onJoin_def Let_def i)
    also have "\<dots> = runTryMatch w info ?st1"
      by (simp add: attemptMatch_def g0)
    finally show ?thesis .
  qed
  have k: "map fst (sessionIdToClient (onJoin w addr sid m raw st)) = map fst (sessionIdToClient ?st1)"
  proof (cases "sanitizeInterests raw = []")
    case True
    show ?thesis unfolding im [OF True] by (simp add: runTryMatch_frame)
  next
    case False
    show ?thesis unfolding d [OF False] by simp
  qed
  have A: "getClient (onJoin w addr sid m raw st) = ?reg1 \<and>
      queues (onJoin w addr sid m raw st) = ?q1 \<and>
      waitingOf md (queues (onJoin w addr sid m raw st)) = waitingOf md (queues st) @ [sid] \<and>
      timers (onJoin w addr sid m raw st) = timers st @ [JoinAttempt sid w] \<and>
      outbox (onJoin w addr sid m raw st) = outbox st"
    if "sanitizeInterests raw \<noteq> []"
    unfolding d [OF that] by (simp add: g0 tail)
  have T: "timers (onJoin w addr sid m raw st) = timers st" if "sanitizeInterests raw = []"
    unfolding im [OF that] by (simp add: runTryMatch_frame)
  have N: "getClient (onJoin w addr sid m raw st) = ?reg1 \<and>
      queues (onJoin w addr sid m raw st) = ?q1 \<and>
      waitingOf md (queues (onJoin w addr sid m raw st)) = waitingOf md (queues st) @ [sid] \<and>
      outbox (onJoin w addr sid m raw st) = outbox st @ [(w, Waiting)]"
    if e: "sanitizeInterests raw = []" and t: "tryMatch ?q1 info ?reg1 = (q', None)" for q'
  proof -
    from tryMatch_None [OF t] have "q' = ?q1" .
    with t show ?thesis
      unfolding im [OF e] by (simp add: runTryMatch_def g0 applyAttempt_def tail)
  qed
  have S: "a = sid \<and> b \<noteq> sid \<and>
      (\<exists>peer. getClient st b = Some peer \<and>
         getClient (onJoin w addr sid m raw st)
           = (getClient st)(sid \<mapsto> info\<lparr>pairedWith := Some b\<rparr>,
                            b \<mapsto> peer\<lparr>pairedWith := Some sid\<rparr>) \<and>
         queues (onJoin w addr sid m raw st) = removeFromQueues (removeFromQueues ?q1 info) peer \<and>
         outbox (onJoin w addr sid m raw st) = outbox st @ [(w, Paired b), (ws peer, Paired sid)])"
    if e: "sanitizeInterests raw = []" and t: "tryMatch ?q1 info ?reg1 = (q', Some (a, b))"
    for q' a b
  proof -
    from tryMatch_Some [OF t] obtain peer where
      a: "a = sid" and b: "b \<noteq> sid" and rb: "?reg1 b = Some peer"
      and q': "q' = removeFromQueues (removeFromQueues ?q1 info) peer"
      using fld(2) by auto
    from rb b have gb: "getClient st b = Some peer" by simp
    from ok gb have pb: "sessionId peer = b"
      by (simp add: getClient_def wellKeyed_lookup)
    let ?st2 = "?st1\<lparr>queues := q'\<rparr>"
    have g2: "getClient ?st2 sid = Some info" "getClient ?st2 b = Some peer"
      using rb by (simp_all add: g0)
    have j: "onJoin w addr sid m raw st = applyAttempt w (Some (sid, b)) ?st2"
      unfolding im [OF e] using t a by (simp add: runTryMatch_def g0)
    have r: "applyAttempt w (Some (sid, b)) ?st2 =
        send (ws peer) (Paired sid)
          (send w (Paired b)
             (setPairedWith b (Some sid) (setPairedWith sid (Some b) ?st2)))"
      using g2 fld pb by (simp add: applyAttempt_def)
    have gg: "getClient (onJoin w addr sid m raw st)
        = (getClient st)(sid \<mapsto> info\<lparr>pairedWith := Some b\<rparr>, b \<mapsto> peer\<lparr>pairedWith := Some sid\<rparr>)"
      unfolding j r using b rb
      by (auto simp add: getClient_setPairedWith fun_eq_iff g0)
    have qq: "queues (onJoin w addr sid m raw st) = q'"
      unfolding j r by simp
    have oo: "outbox (onJoin w addr sid m raw st) = outbox st @ [(w, Paired b), (ws peer, Paired sid)]"
      unfolding j r by simp
    from a b gb gg qq oo q' show ?thesis by blast
  qed
  have K: "map fst (sessionIdToClient (onJoin w addr sid m raw st))
      = (if sid \<in> set (map fst (sessionIdToClient st)) then map fst (sessionIdToClient st)
         else map fst (sessionIdToClient st) @ [sid])"
    unfolding k by (rule ks)
  from K A T N S show ?thesis by blast
qed

theorem onJoin_replaces_record_witness:
  "getClient pairedAB idA = Some (joined idA Text [] 1 (Some idB)) \<and>
   getClient (onJoin 3 ''ip'' idA ''video'' (Some [JString ''music'']) pairedAB) idA
     = Some (joined idA Video [''music''] 3 None) \<and>
   queues (onJoin 3 ''ip'' idA ''video'' (Some [JString ''music'']) pairedAB)
     = enqueueClient (queues pairedAB) (joined idA Video [''music''] 3 None) \<and>
   map fst (sessionIdToClient (onJoin 3 ''ip'' idA ''video'' (Some [JString ''music'']) pairedAB))
     = [idA, idB] \<and>
   getClient (onJoin 2 ''ip'' idA ''video'' None waitingA) idA = Some (joined idA Video [] 2 None) \<and>
   queues (onJoin 2 ''ip'' idA ''video'' None waitingA)
     = enqueueClient (queues waitingA) (joined idA Video [] 2 None) \<and>
   outbox (onJoin 2 ''ip'' idA ''video'' None waitingA) = outbox waitingA @ [(2, Waiting)] \<and>
   getClient (onJoin 2 ''ip'' idA ''video'' None waitingAC) idA
     = Some (joined idA Video [] 2 (Some idC)) \<and>
   getClient (onJoin 2 ''ip'' idA ''video'' None waitingAC) idC
     = Some (joined idC Video [] 3 (Some idA)) \<and>
   outbox (onJoin 2 ''ip'' idA ''video'' None waitingAC)
     = outbox waitingAC @ [(2, Paired idC), (3, Paired idA)]"
proof -
  have v: "isValidUuidV4 idA"
    by (rule valid_ids)
  have p: "parseMode ''video'' = Some Video"
    by (simp add: parseMode_def)
  have s: "sanitizeInterests (Some [JString ''music'']) = [''music'']" "sanitizeInterests None = []"
    by (simp_all add: sanitizeInterests_def norm_tokens)
  have okAB: "wellKeyed (sessionIdToClient pairedAB)"
    unfolding pairedAB_def by (rule wellKeyed_reachable)
  have okA: "wellKeyed (sessionIdToClient waitingA)"
    unfolding waitingA_def by (rule wellKeyed_reachable)
  have okAC: "wellKeyed (sessionIdToClient waitingAC)"
    unfolding waitingAC_def by (rule wellKeyed_reachable)
  have i1: "joined idA Video [''music''] 3 None =
      \<lparr>sessionId = idA, mode = Video, interests = sanitizeInterests (Some [JString ''music'']),
       ws = 3, pairedWith = None, ip = ''ip''\<rparr>"
    by (simp add: joined_def s)
  have i2: "joined idA Video [] 2 None =
      \<lparr>sessionId = idA, mode = Video, interests = sanitizeInterests None,
       ws = 2, pairedWith = None, ip = ''ip''\<rparr>"
    by (simp add: joined_def s)
  have gAB: "getClient pairedAB idA = Some (joined idA Text [] 1 (Some idB))"
    "map fst (sessionIdToClient pairedAB) = [idA, idB]"
    by (simp_all add: pairedAB_value getClient_def)
  have gAC: "getClient waitingAC idC = Some (joined idC Video [] 3 None)"
    by (simp add: waitingAC_value getClient_def ids_neq)
  obtain q1 where t1:
    "tryMatch (enqueueClient (queues waitingA) (joined idA Video [] 2 None))
       (joined idA Video [] 2 None) ((getClient waitingA)(idA \<mapsto> joined idA Video [] 2 None))
     = (q1, None)"
    using rejoin_alone by (metis prod.collapse)
  obtain q2 where t2:
    "tryMatch (enqueueClient (queues waitingAC) (joined idA Video [] 2 None))
       (joined idA Video [] 2 None) ((getClient waitingAC)(idA \<mapsto> joined idA Video [] 2 None))
     = (q2, Some (idA, idC))"
    using rejoin_matched by (metis prod.collapse)
  have a: "getClient (onJoin 3 ''ip'' idA ''video'' (Some [JString ''music'']) pairedAB) idA
      = Some (joined idA Video [''music''] 3 None) \<and>
    queues (onJoin 3 ''ip'' idA ''video'' (Some [JString ''music'']) pairedAB)
      = enqueueClient (queues pairedAB) (joined idA Video [''music''] 3 None) \<and>
    map fst (sessionIdToClient (onJoin 3 ''ip'' idA ''video'' (Some [JString ''music'']) pairedAB))
      = [idA, idB]"
    using onJoin_replaces_record [OF v p okAB i1] s gAB by simp
  have b: "getClient (onJoin 2 ''ip'' idA ''video'' None waitingA) idA
      = Some (joined idA Video [] 2 None) \<and>
    queues (onJoin 2 ''ip'' idA ''video'' None waitingA)
      = enqueueClient (queues waitingA) (joined idA Video [] 2 None) \<and>
    outbox (onJoin 2 ''ip'' idA ''video'' None waitingA) = outbox waitingA @ [(2, Waiting)]"
    using onJoin_replaces_record [OF v p okA i2] s t1 by simp
  have c: "getClient (onJoin 2 ''ip'' idA ''video'' None waitingAC) idA
      = Some (joined idA Video [] 2 (Some idC)) \<and>
    getClient (onJoin 2 ''ip'' idA ''video'' None waitingAC) idC
      = Some (joined idC Video [] 3 (Some idA)) \<and>
    outbox (onJoin 2 ''ip'' idA ''video'' None waitingAC)
      = outbox waitingAC @ [(2, Paired idC), (3, Paired idA)]"
    using onJoin_replaces_record [OF v p okAC i2] s t2 gAC
    by (auto simp add: joined_def ids_neq)
  from gAB(1) a b c show ?thesis by blast
qed

text \<open>
  C9: a deferred attempt whose session was removed before it fires changes no queue, pool
  or pairing, for join and for next. The code does not keep this for next. In
  \<open>staleNext\<close> A is no longer registered and B waits in the FIFO and in its pool. The
  timer set by A's next fires: \<open>tryMatch\<close> runs for A's old record, takes B out of the
  FIFO and the pool, and the pair is dropped because A is not registered. B stays
  registered, unpaired and unqueued, and nothing is sent. (The timer of A's join, fired
  just before, returned at once: \<open>attemptMatch\<close> looks the session up first.)
\<close>

theorem stale_next_attempt_mutates_queues:
  "getClient staleNext idA = None \<and>
   waitingOf Text (queues staleNext) = [idB] \<and>
   poolsOf Text (queues staleNext) = [''y'' \<mapsto> {idB}] \<and>
   timers staleNext = [NextAttempt (joined idA Text [''x''] 1 None), JoinAttempt idB 2] \<and>
   waitingOf Text (queues (step TimerFires staleNext)) = [] \<and>
   poolsOf Text (queues (step TimerFires staleNext)) = Map.empty \<and>
   getClient (step TimerFires staleNext) idB = Some (joined idB Text [''y''] 2 None) \<and>
   outbox (step TimerFires staleNext) = []"
  by (simp add: staleNext_value server_eval)

section \<open>sanitizeInterests\<close>

text \<open>
  Lower-casing moves a letter up by 32 and nothing else; the result is neither an
  upper-case letter nor white space.
\<close>

lemma of_char_shift:
  assumes "(of_char c :: nat) \<le> 222"
  shows "(of_char (char_of (of_char c + 32 :: nat)) :: nat) = of_char c + 32"
  using assms by simp

lemma lowerChar_cases:
  "lowerChar c = c \<or>
   (lowerChar c = char_of (of_char c + 32 :: nat) \<and>
    ((97 \<le> (of_char c + 32 :: nat) \<and> (of_char c + 32 :: nat) \<le> 122) \<or>
     (224 \<le> (of_char c + 32 :: nat) \<and> (of_char c + 32 :: nat) \<le> 254)) \<and>
    ((65 \<le> (of_char c :: nat) \<and> (of_char c :: nat) \<le> 90) \<or>
     (192 \<le> (of_char c :: nat) \<and> (of_char c :: nat) \<le> 222)))"
  unfolding lowerChar_def Let_def by (cases "(65 \<le> (of_char c :: nat) \<and> (of_char c :: nat) \<le> 90) \<or>
     (192 \<le> (of_char c :: nat) \<and> (of_char c :: nat) \<le> 222 \<and> (of_char c :: nat) \<noteq> 215)") (simp_all only: if_True if_False simp_thms, arith)

lemma lowerChar_idem: "lowerChar (lowerChar c) = lowerChar c"
proof -
  from lowerChar_cases [of c] show ?thesis
  proof
    assume "lowerChar c = c"
    then show ?thesis by simp
  next
    assume a: "lowerChar c = char_of (of_char c + 32 :: nat) \<and>
      ((97 \<le> (of_char c + 32 :: nat) \<and> (of_char c + 32 :: nat) \<le> 122) \<or>
       (224 \<le> (of_char c + 32 :: nat) \<and> (of_char c + 32 :: nat) \<le> 254)) \<and>
      ((65 \<le> (of_char c :: nat) \<and> (of_char c :: nat) \<le> 90) \<or>
       (192 \<le> (of_char c :: nat) \<and> (of_char c :: nat) \<le> 222))"
    then have le: "(of_char c :: nat) \<le> 222" by arith
    define d where "d = char_of (of_char c + 32 :: nat)"
    have v: "(of_char d :: nat) = of_char c + 32"
      unfolding d_def using le by (rule of_char_shift)
    have "\<not> ((65 \<le> (of_char d :: nat) \<and> (of_char d :: nat) \<le> 90) \<or>
       (192 \<le> (of_char d :: nat) \<and> (of_char d :: nat) \<le> 222 \<and> (of_char d :: nat) \<noteq> 215))"
      using a unfolding v by arith
    then have "lowerChar d = d"
      by (simp only: lowerChar_def Let_def if_False)
    with a show ?thesis by (simp only: d_def)
  qed
qed

lemma isWhiteSpace_lowerChar: "isWhiteSpace (lowerChar c) = isWhiteSpace c"
proof -
  from lowerChar_cases [of c] show ?thesis
  proof
    assume "lowerChar c = c"
    then show ?thesis by simp
  next
    assume a: "lowerChar c = char_of (of_char c + 32 :: nat) \<and>
      ((97 \<le> (of_char c + 32 :: nat) \<and> (of_char c + 32 :: nat) \<le> 122) \<or>
       (224 \<le> (of_char c + 32 :: nat) \<and> (of_char c + 32 :: nat) \<le> 254)) \<and>
      ((65 \<le> (of_char c :: nat) \<and> (of_char c :: nat) \<le> 90) \<or>
       (192 \<le> (of_char c :: nat) \<and> (of_char c :: nat) \<le> 222))"
    then have le: "(of_char c :: nat) \<le> 222" by arith
    define d where "d = char_of (of_char c + 32 :: nat)"
    have v: "(of_char d :: nat) = of_char c + 32"
      unfolding d_def using le by (rule of_char_shift)
    define n where "n = (of_char c :: nat)"
    from a have r: "(65 \<le> n \<and> n \<le> 90) \<or> (192 \<le> n \<and> n \<le> 222)"
      unfolding n_def by blast
    have 1: "\<not> isWhiteSpace d"
      unfolding isWhiteSpace_def v n_def [symmetric] using r by auto
    have 2: "\<not> isWhiteSpace c"
      unfolding isWhiteSpace_def n_def [symmetric] using r by auto
    from 1 2 a show ?thesis by (simp only: d_def)
  qed
qed

lemma toLowerCase_idem: "toLowerCase (toLowerCase s) = toLowerCase s"
  by (simp add: toLowerCase_def lowerChar_idem)

lemma dropWhile_ends_commute:
  "dropWhile P (rev (dropWhile P (rev t))) = rev (dropWhile P (rev (dropWhile P t)))"
  by (induction t) (auto simp add: dropWhile_append dest: set_dropWhileD)

lemma trim_idem: "trim (trim s) = trim s"
proof -
  have "dropWhile isWhiteSpace (rev (dropWhile isWhiteSpace (rev (dropWhile isWhiteSpace s))))
      = rev (dropWhile isWhiteSpace (rev (dropWhile isWhiteSpace s)))"
    by (simp add: dropWhile_ends_commute)
  then show ?thesis by (simp add: trim_def)
qed

lemma dropWhile_lower:
  "dropWhile isWhiteSpace (map lowerChar s) = map lowerChar (dropWhile isWhiteSpace s)"
  by (induction s) (simp_all add: isWhiteSpace_lowerChar)

lemma trim_toLowerCase: "trim (toLowerCase s) = toLowerCase (trim s)"
  by (simp add: trim_def toLowerCase_def dropWhile_lower rev_map)

lemma sanitizeEntry_normal:
  "trim (sanitizeEntry v) = sanitizeEntry v" "toLowerCase (sanitizeEntry v) = sanitizeEntry v"
proof -
  show "trim (sanitizeEntry v) = sanitizeEntry v"
    by (cases v) (simp_all add: trim_toLowerCase trim_idem, simp add: trim_def)
  show "toLowerCase (sanitizeEntry v) = sanitizeEntry v"
    by (cases v) (simp_all add: toLowerCase_idem, simp add: toLowerCase_def)
qed

lemma sanitizeEntry_map:
  "filter (\<lambda>x. x \<noteq> []) (map sanitizeEntry xs)
     = [toLowerCase (trim s). JString s \<leftarrow> xs, toLowerCase (trim s) \<noteq> []]"
proof (induction xs)
  case Nil
  show ?case by simp
next
  case (Cons v xs)
  then show ?case by (cases v) simp_all
qed

lemma sample_tokens:
  "toLowerCase (trim '' Music '') = ''music''" "toLowerCase (trim ''music'') = ''music''"
  "toLowerCase (trim ''  '') = []" "toLowerCase (trim ''Rock'') = ''rock''"
  "trim ''rock'' = ''rock''" "toLowerCase ''rock'' = ''rock''"
  "toLowerCase (trim ''a'') = ''a''"
  by (simp_all add: toLowerCase_def trim_def lowerChar_def isWhiteSpace_def char_of_def bit_Suc_0_iff)

lemma sample_interests:
  "sanitizeInterests (Some [JString '' Music '', JString ''music'', JOther, JString ''  '', JString ''Rock''])
     = [''music'', ''music'', ''rock'']"
  by (simp add: sanitizeInterests_def sample_tokens)

text \<open>
  C8, as stated, fails: \<open>sanitizeInterests\<close> does not de-duplicate. The same interest
  sent twice is stored twice.
\<close>

theorem sanitizeInterests_duplicates_counterexample:
  "sanitizeInterests (Some [JString ''a'', JString ''a'']) = [''a'', ''a''] \<and>
   \<not> distinct (sanitizeInterests (Some [JString ''a'', JString ''a'']))"
  by (simp add: sanitizeInterests_def sample_tokens)

text \<open>
  C8, amended: the stored list is the first 10, in order and with repetitions kept, of
  the trimmed and lower-cased string entries that are not empty (an entry that is not a
  string is dropped). It has at most 10 entries, and each is non-empty, trimmed and
  lower-cased.
\<close>

theorem sanitizeInterests_normalizes:
  "length (sanitizeInterests raw) \<le> 10 \<and>
   (\<forall>x \<in> set (sanitizeInterests raw). x \<noteq> [] \<and> trim x = x \<and> toLowerCase x = x) \<and>
   (\<forall>xs. raw = Some xs \<longrightarrow>
      sanitizeInterests raw =
        take 10 [toLowerCase (trim s). JString s \<leftarrow> xs, toLowerCase (trim s) \<noteq> []])"
proof -
  have "x \<noteq> [] \<and> trim x = x \<and> toLowerCase x = x" if "x \<in> set (sanitizeInterests raw)" for x
  proof (cases raw)
    case None
    with that show ?thesis by (simp add: sanitizeInterests_def)
  next
    case (Some xs)
    with that have "x \<in> set (filter (\<lambda>x. x \<noteq> []) (map sanitizeEntry xs))"
      by (auto simp add: sanitizeInterests_def dest: in_set_takeD)
    then show ?thesis by (auto simp add: sanitizeEntry_normal)
  qed
  moreover have "length (sanitizeInterests raw) \<le> 10"
    by (simp add: sanitizeInterests_def split: option.splits)
  moreover have "sanitizeInterests raw =
        take 10 [toLowerCase (trim s). JString s \<leftarrow> xs, toLowerCase (trim s) \<noteq> []]"
    if "raw = Some xs" for xs
    using that by (simp add: sanitizeInterests_def sanitizeEntry_map)
  ultimately show ?thesis by blast
qed

theorem sanitizeInterests_normalizes_witness:
  "sanitizeInterests (Some [JString '' Music '', JString ''music'', JOther, JString ''  '', JString ''Rock''])
     = [''music'', ''music'', ''rock''] \<and>
   length (sanitizeInterests
     (Some [JString '' Music '', JString ''music'', JOther, JString ''  '', JString ''Rock''])) \<le> 10 \<and>
   trim ''rock'' = ''rock'' \<and> toLowerCase ''rock'' = ''rock''"
  using sanitizeInterests_normalizes
    [of "Some [JString '' Music '', JString ''music'', JOther, JString ''  '', JString ''Rock'']"]
  by (simp add: sample_interests)

end
